theory Spec2Isabelle
  imports Complex_Main "HOL-Library.AList"
begin

section \<open>Dates and calendar days\<close>

text \<open>
  A JavaScript \<open>Date\<close> is an instant: the number of milliseconds since the epoch, here an
  \<open>int\<close>.  An ISO date string \<open>YYYY-MM-DD\<close> is represented by its day number (days since
  1970-01-01); on four-digit years string equality and \<open>localeCompare\<close> agree with \<open>=\<close> and
  \<open>\<le>\<close> on day numbers.  \<open>toISOString().split('T')[0]\<close> is the UTC day of an instant, and
  so is \<open>created_at.split('T')[0]\<close> for the provider's UTC timestamps.
\<close>

definition dayMs :: int where
  "dayMs = 86400000"

definition isoDate :: "int \<Rightarrow> int" where
  "isoDate t = t div dayMs"

text \<open>
  \<open>getDay\<close>, \<open>getDate\<close> and \<open>setDate\<close> work in local time, which depends on the zone the
  program runs in.  A zone is given by its two offsets in milliseconds, as in the language
  standard: the offset in force at an instant (to go from the instant to local time) and
  the offset assumed for a local time (to go back).  In a zone without clock changes both
  are the same constant.
\<close>

record Zone =
  atInstant :: "int \<Rightarrow> int"
  atLocal :: "int \<Rightarrow> int"

definition LocalTime :: "Zone \<Rightarrow> int \<Rightarrow> int" where
  "LocalTime zone t = t + atInstant zone t"

definition UTC :: "Zone \<Rightarrow> int \<Rightarrow> int" where
  "UTC zone t = t - atLocal zone t"

text \<open>The day of the month of a day number, by the usual Gregorian arithmetic.\<close>

definition dayOfMonth :: "int \<Rightarrow> int" where
  "dayOfMonth d =
     (let z = d + 719468;
          era = z div 146097;
          doe = z - era * 146097;
          yoe = (doe - doe div 1460 + doe div 36524 - doe div 146096) div 365;
          doy = doe - (365 * yoe + yoe div 4 - yoe div 100);
          mp = (5 * doy + 2) div 153
      in doy - (153 * mp + 2) div 5 + 1)"


definition getDate :: "Zone \<Rightarrow> int \<Rightarrow> int" where
  "getDate zone t = dayOfMonth (LocalTime zone t div dayMs)"

text \<open>\<open>setDate(dt)\<close>: the local date moves to day \<open>dt\<close> counted from the first of its month
  (days outside the month run into the neighbouring months), the local time of day stays,
  and the result is taken back to an instant.\<close>

definition setDate :: "Zone \<Rightarrow> int \<Rightarrow> int \<Rightarrow> int" where
  "setDate zone t dt =
     UTC zone ((LocalTime zone t div dayMs - getDate zone t + dt) * dayMs
                 + LocalTime zone t mod dayMs)"

section \<open>Numbers\<close>

text \<open>
  A JavaScript number is a double.  \<open>Fin x\<close> is the finite double of value \<open>x\<close> (the two
  zeros are not told apart).  \<open>round64\<close> rounds a real to the nearest double, ties to the
  even significand, with 53 significant bits, exponents from -1022 (below that the spacing
  stays \<open>1 / 2 ^ 1074\<close>) and overflow to an infinity from \<open>2 ^ 1024\<close> on.  The arithmetic
  operators compute exactly and round once.
\<close>

datatype jsnum = NaN | Fin real | PosInfinity | NegInfinity

definition roundEven :: "real \<Rightarrow> int" where
  "roundEven q =
     (let f = \<lfloor>q\<rfloor>; r = q - real_of_int f in
      if r < 1 / 2 then f else if 1 / 2 < r then f + 1 else if even f then f else f + 1)"

text \<open>The binary exponent of a non-zero real, found bit by bit: the greatest \<open>s \<le> 1023\<close>
  with \<open>2 ^ s \<le> \<bar>x\<bar>\<close>, or for \<open>\<bar>x\<bar> < 1\<close> the greatest \<open>s \<le> 1023\<close> with \<open>\<bar>x\<bar> * 2 ^ s < 2\<close>,
  negated and held at -1022.\<close>

definition binarySteps :: "nat list" where
  "binarySteps = [512, 256, 128, 64, 32, 16, 8, 4, 2, 1]"

definition exponent :: "real \<Rightarrow> int" where
  "exponent x =
     (if 1 \<le> \<bar>x\<bar>
      then int (fold (\<lambda>k s. if 2 ^ (s + k) \<le> \<bar>x\<bar> then s + k else s) binarySteps 0)
      else max (- 1022)
             (- int (fold (\<lambda>k s. if \<bar>x\<bar> * 2 ^ (s + k) < 2 then s + k else s) binarySteps 0)))"

definition ulp :: "real \<Rightarrow> real" where
  "ulp x = (if 52 \<le> exponent x then 2 ^ nat (exponent x - 52) else 1 / 2 ^ nat (52 - exponent x))"

definition overflowThreshold :: real where
  "overflowThreshold = 2 ^ 1024"

definition round64 :: "real \<Rightarrow> jsnum" where
  "round64 x =
     (if x = 0 then Fin 0
      else (let y = real_of_int (roundEven (x / ulp x)) * ulp x in
            if overflowThreshold \<le> y then PosInfinity
            else if y \<le> - overflowThreshold then NegInfinity
            else Fin y))"


fun divide_js :: "jsnum \<Rightarrow> jsnum \<Rightarrow> jsnum" where
  "divide_js NaN _ = NaN"
| "divide_js _ NaN = NaN"
| "divide_js (Fin a) (Fin b) =
     (if b \<noteq> 0 then round64 (a / b)
      else if a = 0 then NaN else if 0 < a then PosInfinity else NegInfinity)"
| "divide_js (Fin a) PosInfinity = Fin 0"
| "divide_js (Fin a) NegInfinity = Fin 0"
| "divide_js PosInfinity (Fin b) = (if 0 \<le> b then PosInfinity else NegInfinity)"
| "divide_js NegInfinity (Fin b) = (if 0 \<le> b then NegInfinity else PosInfinity)"
| "divide_js _ _ = NaN"

fun times_js :: "jsnum \<Rightarrow> jsnum \<Rightarrow> jsnum" where
  "times_js NaN _ = NaN"
| "times_js _ NaN = NaN"
| "times_js (Fin a) (Fin b) = round64 (a * b)"
| "times_js (Fin a) PosInfinity = (if a = 0 then NaN else if 0 < a then PosInfinity else NegInfinity)"
| "times_js (Fin a) NegInfinity = (if a = 0 then NaN else if 0 < a then NegInfinity else PosInfinity)"
| "times_js PosInfinity (Fin b) = (if b = 0 then NaN else if 0 < b then PosInfinity else NegInfinity)"
| "times_js NegInfinity (Fin b) = (if b = 0 then NaN else if 0 < b then NegInfinity else PosInfinity)"
| "times_js PosInfinity PosInfinity = PosInfinity"
| "times_js NegInfinity NegInfinity = PosInfinity"
| "times_js PosInfinity NegInfinity = NegInfinity"
| "times_js NegInfinity PosInfinity = NegInfinity"

section \<open>Billing provider: records, responses, pagination\<close>

record Order =
  status :: string
  total :: int
  created_at :: int

record Invoice =
  status :: string
  billing_reason :: string
  order_id :: "nat option"
  total :: int
  created_at :: int

text \<open>Customer ids and \<open>customer_id\<close>s are compared after \<open>String(...)\<close>; both are
  canonical decimal renderings, so the comparison is equality of the numbers.\<close>

record Customer =
  id' :: nat
  mrr :: "int option"

record Subscription =
  customer_id :: nat

text \<open>One page of a list endpoint: \<open>{ error }\<close>, neither \<open>error\<close> nor \<open>data\<close>, or
  \<open>{ data: { data, meta } }\<close> with \<open>meta?.page.lastPage\<close> (absent when \<open>meta\<close> is).\<close>

datatype 'a response = Failure string | NoData | Page "'a list" "nat option"

text \<open>
  The four \<open>while (hasMore)\<close> loops share one shape.  \<open>keep\<close> selects the records pushed,
  \<open>tooOld\<close> is the test on the page's last record (\<open>lastItem && created < startDate\<close>).
  The loop may run forever, so its value is an option; it yields the final \<open>page\<close> counter
  (the number of requests issued) together with the thrown message or the collected list.
  The flag \<open>allInPageTooOld\<close> of the orders loop is computed and never read; it is left
  out.
\<close>

partial_function (option) paginate ::
  "(nat \<Rightarrow> 'a response) \<Rightarrow> ('a \<Rightarrow> bool) \<Rightarrow> ('a list \<Rightarrow> bool) \<Rightarrow> nat \<Rightarrow> 'a list
     \<Rightarrow> (nat \<times> (string + 'a list)) option" where
  "paginate list keep tooOld page acc =
     (case list page of
        Failure msg \<Rightarrow> Some (page, Inl msg)
      | NoData \<Rightarrow> Some (page, Inr acc)
      | Page items meta \<Rightarrow>
          (let acc' = acc @ filter keep items in
           if tooOld items then Some (page, Inr acc')
           else if (case meta of None \<Rightarrow> False | Some lastPage \<Rightarrow> lastPage \<noteq> 0 \<and> lastPage \<le> page)
             then Some (page, Inr acc')
           else paginate list keep tooOld (page + 1) acc'))"

declare paginate.simps [code]

definition fetchAllOrders ::
  "(nat \<Rightarrow> Order response) \<Rightarrow> int \<Rightarrow> int \<Rightarrow> (nat \<times> (string + Order list)) option" where
  "fetchAllOrders listOrders startDate endDate =
     paginate listOrders
       (\<lambda>order. startDate \<le> Order.created_at order \<and> Order.created_at order \<le> endDate)
       (\<lambda>orders. orders \<noteq> [] \<and> Order.created_at (last orders) < startDate)
       1 []"

definition fetchAllInvoices ::
  "(nat \<Rightarrow> Invoice response) \<Rightarrow> int \<Rightarrow> int \<Rightarrow> (nat \<times> (string + Invoice list)) option" where
  "fetchAllInvoices listSubscriptionInvoices startDate endDate =
     paginate listSubscriptionInvoices
       (\<lambda>inv. startDate \<le> Invoice.created_at inv \<and> Invoice.created_at inv \<le> endDate)
       (\<lambda>invoices. invoices \<noteq> [] \<and> Invoice.created_at (last invoices) < startDate)
       1 []"

definition fetchAllCustomers ::
  "(nat \<Rightarrow> Customer response) \<Rightarrow> (nat \<times> (string + Customer list)) option" where
  "fetchAllCustomers listCustomers = paginate listCustomers (\<lambda>_. True) (\<lambda>_. False) 1 []"

definition fetchActiveSubs ::
  "(nat \<Rightarrow> Subscription response) \<Rightarrow> (nat \<times> (string + Subscription list)) option" where
  "fetchActiveSubs listSubscriptions = paginate listSubscriptions (\<lambda>_. True) (\<lambda>_. False) 1 []"

section \<open>Billing ledger builder\<close>

text \<open>The amounts of the ledger are reals: \<open>total / 100\<close> and the sums of the builder are
  taken exactly in this section.\<close>

record DailyEntry =
  revenue :: real
  renewalRevenue :: real
  purchases :: int

record LemonSqueezyMetrics =
  date :: int
  mrr :: real
  revenue :: real
  renewalRevenue :: real
  churnRate :: real
  activeCustomers :: int
  purchases :: int

definition currentMRR :: "Customer list \<Rightarrow> Subscription list \<Rightarrow> real" where
  "currentMRR customers activeSubs =
     (let activeCustomerIds = set (map customer_id activeSubs) in
      fold (\<lambda>c acc. if id' c \<in> activeCustomerIds
                      then acc + real_of_int (case Customer.mrr c of None \<Rightarrow> 0 | Some m \<Rightarrow> m) / 100
                      else acc)
        customers 0)"

text \<open>
  The zero-filling loop: \<open>while (currentDate <= endDate)\<close>, one key per step, the key
  being the UTC day of the instant; \<open>currentDate.setDate(currentDate.getDate() + 1)\<close> moves
  to the same local time on the next local calendar day of the process's zone.  Nothing
  in the loop itself makes it end, so its value is an option.
\<close>

partial_function (option) groupByDate ::
  "Zone \<Rightarrow> int \<Rightarrow> int \<Rightarrow> (int \<times> DailyEntry) list \<Rightarrow> (int \<times> DailyEntry) list option" where
  "groupByDate zone currentDate endDate dailyData =
     (if currentDate \<le> endDate
      then groupByDate zone (setDate zone currentDate (getDate zone currentDate + 1)) endDate
             (AList.update (isoDate currentDate)
                \<lparr>DailyEntry.revenue = 0, DailyEntry.renewalRevenue = 0, DailyEntry.purchases = 0\<rparr>
                dailyData)
      else Some dailyData)"

declare groupByDate.simps [code]

definition processOrder :: "Order \<Rightarrow> (int \<times> DailyEntry) list \<Rightarrow> (int \<times> DailyEntry) list" where
  "processOrder order dailyData =
     (if Order.status order \<noteq> ''paid'' then dailyData
      else (let date = isoDate (Order.created_at order) in
            case map_of dailyData date of
              None \<Rightarrow> dailyData
            | Some m \<Rightarrow>
                (let amount = real_of_int (Order.total order) / 100 in
                 AList.update date
                   (m\<lparr>DailyEntry.revenue := DailyEntry.revenue m + amount,
                      DailyEntry.purchases := DailyEntry.purchases m + 1\<rparr>)
                   dailyData)))"

text \<open>\<open>!!order_id\<close>: an absent id and the id \<open>0\<close> are both falsy.\<close>

definition isInitial :: "Invoice \<Rightarrow> bool" where
  "isInitial invoice \<longleftrightarrow>
     billing_reason invoice = ''initial'' \<or>
     (case order_id invoice of None \<Rightarrow> False | Some n \<Rightarrow> n \<noteq> 0)"

definition processInvoice :: "Invoice \<Rightarrow> (int \<times> DailyEntry) list \<Rightarrow> (int \<times> DailyEntry) list" where
  "processInvoice invoice dailyData =
     (if Invoice.status invoice \<noteq> ''paid'' then dailyData
      else if isInitial invoice then dailyData
      else (let date = isoDate (Invoice.created_at invoice) in
            case map_of dailyData date of
              None \<Rightarrow> dailyData
            | Some m \<Rightarrow>
                (let amount = real_of_int (Invoice.total invoice) / 100 in
                 AList.update date
                   (m\<lparr>DailyEntry.revenue := DailyEntry.revenue m + amount,
                      DailyEntry.renewalRevenue := DailyEntry.renewalRevenue m + amount\<rparr>)
                   dailyData)))"

definition toMetrics :: "real \<Rightarrow> int \<Rightarrow> int \<times> DailyEntry \<Rightarrow> LemonSqueezyMetrics" where
  "toMetrics mrrNow activeCount = (\<lambda>(d, metrics).
     \<lparr>date = d, mrr = mrrNow, revenue = DailyEntry.revenue metrics,
      renewalRevenue = DailyEntry.renewalRevenue metrics, churnRate = 0,
      activeCustomers = activeCount, purchases = DailyEntry.purchases metrics\<rparr>)"

text \<open>Everything the \<open>try\<close> block does once the four lists are fetched.\<close>

definition buildLedger ::
  "Zone \<Rightarrow> int \<Rightarrow> int \<Rightarrow> Order list \<Rightarrow> Invoice list \<Rightarrow> Customer list \<Rightarrow> Subscription list
     \<Rightarrow> LemonSqueezyMetrics list option" where
  "buildLedger zone startDate endDate orders invoices customers activeSubs =
     (case groupByDate zone startDate endDate [] of
        None \<Rightarrow> None
      | Some dailyData \<Rightarrow>
          (let dailyData = fold processOrder orders dailyData;
               dailyData = fold processInvoice invoices dailyData
           in Some (sort_key date
                      (map (toMetrics (currentMRR customers activeSubs) (int (length activeSubs)))
                         dailyData))))"

text \<open>
  The environment of the process (the two variables and the zone it runs in), the
  provider's four list endpoints (each takes the store filter and the page number; page
  size and the \<open>active\<close> status filter are constants), and what a run leaves behind
  besides its result: the console lines and the requests issued.
\<close>

record Env =
  LEMONSQUEEZY_API_KEY :: "string option"
  LEMONSQUEEZY_STORE_ID :: "string option"
  TZ :: Zone

record Provider =
  listOrders :: "string option \<Rightarrow> nat \<Rightarrow> Order response"
  listSubscriptionInvoices :: "string option \<Rightarrow> nat \<Rightarrow> Invoice response"
  listCustomers :: "string option \<Rightarrow> nat \<Rightarrow> Customer response"
  listSubscriptions :: "string option \<Rightarrow> nat \<Rightarrow> Subscription response"

datatype Endpoint = Orders | SubscriptionInvoices | Customers | Subscriptions

text \<open>A console line: \<open>console.warn(text)\<close>, or \<open>console.error(label, error)\<close> with the
  message of the error.\<close>

datatype LogLine = Warn string | Error string string

record Run =
  series :: "LemonSqueezyMetrics list"
  console :: "LogLine list"
  requests :: "(Endpoint \<times> nat) list"

text \<open>A loop that ends with counter \<open>p\<close> has requested the pages \<open>1, \<dots>, p\<close>.\<close>

definition requested :: "Endpoint \<Rightarrow> nat \<Rightarrow> (Endpoint \<times> nat) list" where
  "requested ep p = map (\<lambda>k. (ep, k)) [1..<Suc p]"

text \<open>\<open>!apiKey\<close>: an unset variable and the empty string are both falsy.\<close>

definition missing :: "string option \<Rightarrow> bool" where
  "missing v \<longleftrightarrow> (case v of None \<Rightarrow> True | Some s \<Rightarrow> s = [])"

text \<open>The body of the \<open>try\<close>: \<open>Inl\<close> is a thrown error, \<open>None\<close> a loop that never ends.
  The four fetches run one after the other; the first error ends the block.\<close>

definition tryBlock ::
  "Zone \<Rightarrow> Provider \<Rightarrow> string option \<Rightarrow> int \<Rightarrow> int
     \<Rightarrow> ((Endpoint \<times> nat) list \<times> (string + LemonSqueezyMetrics list)) option" where
  "tryBlock zone api storeId startDate endDate =
     (case fetchAllOrders (listOrders api storeId) startDate endDate of
        None \<Rightarrow> None
      | Some (p1, r1) \<Rightarrow>
     (case r1 of
        Inl msg \<Rightarrow> Some (requested Orders p1, Inl msg)
      | Inr orders \<Rightarrow>
     (case fetchAllInvoices (listSubscriptionInvoices api storeId) startDate endDate of
        None \<Rightarrow> None
      | Some (p2, r2) \<Rightarrow>
     (case r2 of
        Inl msg \<Rightarrow> Some (requested Orders p1 @ requested SubscriptionInvoices p2, Inl msg)
      | Inr invoices \<Rightarrow>
     (case fetchAllCustomers (listCustomers api storeId) of
        None \<Rightarrow> None
      | Some (p3, r3) \<Rightarrow>
     (case r3 of
        Inl msg \<Rightarrow>
          Some (requested Orders p1 @ requested SubscriptionInvoices p2 @ requested Customers p3,
                Inl msg)
      | Inr customers \<Rightarrow>
     (case fetchActiveSubs (listSubscriptions api storeId) of
        None \<Rightarrow> None
      | Some (p4, r4) \<Rightarrow>
          (let reqs = requested Orders p1 @ requested SubscriptionInvoices p2
                        @ requested Customers p3 @ requested Subscriptions p4 in
           case r4 of
             Inl msg \<Rightarrow> Some (reqs, Inl msg)
           | Inr activeSubs \<Rightarrow>
               (case buildLedger zone startDate endDate orders invoices customers activeSubs of
                  None \<Rightarrow> None
                | Some ledger \<Rightarrow> Some (reqs, Inr ledger))))))))))"

text \<open>The function itself: the gate on the API key, then the \<open>try\<close> with its \<open>catch\<close>,
  which logs the error and returns the empty series.  \<open>lemonSqueezySetup\<close> stores the key
  and the \<open>onError\<close> callback, which the SDK calls with the error of a failed request
  before it returns it: a failed run has that line on the console before the one of the
  \<open>catch\<close>.\<close>

definition fetchLemonSqueezyData :: "Env \<Rightarrow> Provider \<Rightarrow> int \<Rightarrow> int \<Rightarrow> Run option" where
  "fetchLemonSqueezyData env api startDate endDate =
     (if missing (LEMONSQUEEZY_API_KEY env)
      then Some \<lparr>series = [], console = [Warn ''LemonSqueezy API Key missing.''], requests = []\<rparr>
      else (case tryBlock (TZ env) api (LEMONSQUEEZY_STORE_ID env) startDate endDate of
              None \<Rightarrow> None
            | Some (reqs, Inl msg) \<Rightarrow>
                Some \<lparr>series = [],
                      console = [Error ''Lemon Squeezy SDK Error:'' msg,
                                 Error ''Error fetching LemonSqueezy data:'' msg],
                      requests = reqs\<rparr>
            | Some (reqs, Inr ledger) \<Rightarrow>
                Some \<lparr>series = ledger, console = [], requests = reqs\<rparr>))"

section \<open>Analytics series: the mock generator\<close>

record PostHogMetrics =
  date :: int
  visitors :: int
  pricingViews :: int
  checkouts :: int
  purchases :: int
  referringDomains :: "(string \<times> int) list"

definition domains :: "string list" where
  "domains = [''google.com'', ''twitter.com'', ''linkedin.com'', ''direct'', ''facebook.com'']"

text \<open>
  Counts are integers and \<open>Math.floor\<close> is the floor of the exact product (on the ranges
  that occur the double-precision products have the same floors).
  \<open>Math.random()\<close> is a sequence of draws \<open>rnd 0, rnd 1, \<dots>\<close> read through a counter.
  One step of \<open>domains.forEach\<close>: the state is the map built so far, the visitors not yet
  assigned and the counter.
\<close>

definition assignDomain ::
  "(nat \<Rightarrow> real) \<Rightarrow> string \<Rightarrow> (string \<times> int) list \<times> int \<times> nat
     \<Rightarrow> (string \<times> int) list \<times> int \<times> nat" where
  "assignDomain rnd domain = (\<lambda>(referring, remainingVisitors, i).
     (let count = \<lfloor>rnd i * (real_of_int remainingVisitors / 2)\<rfloor> in
      (AList.update domain count referring, remainingVisitors - count, Suc i)))"

definition mockDay :: "(nat \<Rightarrow> real) \<Rightarrow> nat \<Rightarrow> int \<Rightarrow> PostHogMetrics" where
  "mockDay rnd i currentDate =
     (let visitors = 500 + \<lfloor>rnd i * 500\<rfloor>;
          pricingViews = \<lfloor>real_of_int visitors * (3 / 10)\<rfloor>;
          checkouts = \<lfloor>real_of_int pricingViews * (1 / 10)\<rfloor>;
          purchases = \<lfloor>real_of_int checkouts * (1 / 2)\<rfloor>;
          (referring, remainingVisitors, _) = fold (assignDomain rnd) domains ([], visitors, Suc i);
          referring = (if 0 < remainingVisitors
                       then AList.update ''other'' remainingVisitors referring else referring)
      in \<lparr>date = isoDate currentDate, visitors = visitors, pricingViews = pricingViews,
          checkouts = checkouts, purchases = purchases, referringDomains = referring\<rparr>)"

function generateMockPostHogData_loop ::
  "(nat \<Rightarrow> real) \<Rightarrow> nat \<Rightarrow> int \<Rightarrow> int \<Rightarrow> PostHogMetrics list \<Rightarrow> PostHogMetrics list" where
  "generateMockPostHogData_loop rnd i currentDate endDate data =
     (if currentDate \<le> endDate
      then generateMockPostHogData_loop rnd (i + 6) (currentDate + dayMs) endDate
             (data @ [mockDay rnd i currentDate])
      else data)"
  by pat_completeness auto
termination
  by (relation "measure (\<lambda>(r, i, c, e, d). nat (e - c + 1))") (auto simp: dayMs_def)

definition generateMockPostHogData :: "(nat \<Rightarrow> real) \<Rightarrow> int \<Rightarrow> int \<Rightarrow> PostHogMetrics list" where
  "generateMockPostHogData rnd startDate endDate =
     generateMockPostHogData_loop rnd 0 startDate endDate []"

section \<open>Series merger\<close>

record DashboardData =
  date :: int
  visitors :: int
  pricingViews :: int
  checkouts :: int
  referringDomains :: "(string \<times> int) list"
  mrr :: jsnum
  revenue :: jsnum
  renewalRevenue :: jsnum
  churnRate :: jsnum
  activeCustomers :: int
  purchases :: int

text \<open>The object substituted when \<open>find\<close> returns \<open>undefined\<close>.\<close>

definition fallbackItem :: "int \<Rightarrow> PostHogMetrics" where
  "fallbackItem d =
     \<lparr>PostHogMetrics.date = d, PostHogMetrics.visitors = 0, PostHogMetrics.pricingViews = 0,
      PostHogMetrics.checkouts = 0, PostHogMetrics.purchases = 0,
      PostHogMetrics.referringDomains = []\<rparr>"

text \<open>\<open>{ ...lemonItem, ...postHogItem, purchases: lemonItem.purchases }\<close>: the later
  spread wins on the shared keys \<open>date\<close> and \<open>purchases\<close>, then \<open>purchases\<close> is set again.
  The ledger's amounts enter as finite numbers.\<close>

definition spread :: "LemonSqueezyMetrics \<Rightarrow> PostHogMetrics \<Rightarrow> DashboardData" where
  "spread lemonItem postHogItem =
     \<lparr>date = PostHogMetrics.date postHogItem,
      visitors = PostHogMetrics.visitors postHogItem,
      pricingViews = PostHogMetrics.pricingViews postHogItem,
      checkouts = PostHogMetrics.checkouts postHogItem,
      referringDomains = PostHogMetrics.referringDomains postHogItem,
      mrr = Fin (LemonSqueezyMetrics.mrr lemonItem),
      revenue = Fin (LemonSqueezyMetrics.revenue lemonItem),
      renewalRevenue = Fin (LemonSqueezyMetrics.renewalRevenue lemonItem),
      churnRate = Fin (LemonSqueezyMetrics.churnRate lemonItem),
      activeCustomers = LemonSqueezyMetrics.activeCustomers lemonItem,
      purchases = LemonSqueezyMetrics.purchases lemonItem\<rparr>"

definition mergedData :: "LemonSqueezyMetrics list \<Rightarrow> PostHogMetrics list \<Rightarrow> DashboardData list" where
  "mergedData lemonData postHogData =
     map (\<lambda>lemonItem.
            (let postHogItem =
                   (case find (\<lambda>p. PostHogMetrics.date p = LemonSqueezyMetrics.date lemonItem)
                           postHogData of
                      Some p \<Rightarrow> p
                    | None \<Rightarrow> fallbackItem (LemonSqueezyMetrics.date lemonItem))
             in spread lemonItem postHogItem))
       lemonData"

section \<open>Time-bucket aggregator\<close>









section \<open>Rate calculator\<close>

text \<open>
  JavaScript values as far as \<open>calculateRate\<close> can receive them from a record: numbers,
  \<open>undefined\<close>, the date string, the domain map (or another plain object) and the
  functions a record inherits.  Strings of dates, objects and functions are truthy and
  convert to \<open>NaN\<close>.
\<close>

datatype jsval = Undefined | Number jsnum | IsoDateString int | PlainObject | FunctionObject

fun toNumber :: "jsval \<Rightarrow> jsnum" where
  "toNumber Undefined = NaN"
| "toNumber (Number n) = n"
| "toNumber (IsoDateString _) = NaN"
| "toNumber PlainObject = NaN"
| "toNumber FunctionObject = NaN"

fun falsy :: "jsval \<Rightarrow> bool" where
  "falsy Undefined = True"
| "falsy (Number NaN) = True"
| "falsy (Number (Fin x)) = (x = 0)"
| "falsy (Number PosInfinity) = False"
| "falsy (Number NegInfinity) = False"
| "falsy (IsoDateString _) = False"
| "falsy PlainObject = False"
| "falsy FunctionObject = False"

definition calculateRate :: "jsval \<Rightarrow> jsval \<Rightarrow> jsnum" where
  "calculateRate numerator denominator =
     (if falsy denominator \<or> denominator = Number (Fin 0) then Fin 0
      else times_js (divide_js (toNumber numerator) (toNumber denominator)) (Fin 100))"

text \<open>
  \<open>(item as any)[name]\<close> on a record of the merged series, a plain object: its own
  eleven properties, then what it inherits from \<open>Object.prototype\<close> (eleven functions and
  \<open>__proto__\<close>, the prototype itself), and \<open>undefined\<close> for every other name.
\<close>

definition num :: "int \<Rightarrow> jsval" where
  "num n = Number (Fin (real_of_int n))"

definition inheritedFunctions :: "string list" where
  "inheritedFunctions =
     [''constructor'', ''hasOwnProperty'', ''isPrototypeOf'', ''propertyIsEnumerable'',
      ''toLocaleString'', ''toString'', ''valueOf'', ''__defineGetter__'', ''__defineSetter__'',
      ''__lookupGetter__'', ''__lookupSetter__'']"

definition field :: "DashboardData \<Rightarrow> string \<Rightarrow> jsval" where
  "field item name =
     (if name = ''date'' then IsoDateString (date item)
      else if name = ''visitors'' then num (visitors item)
      else if name = ''pricingViews'' then num (pricingViews item)
      else if name = ''checkouts'' then num (checkouts item)
      else if name = ''referringDomains'' then PlainObject
      else if name = ''mrr'' then Number (mrr item)
      else if name = ''revenue'' then Number (revenue item)
      else if name = ''renewalRevenue'' then Number (renewalRevenue item)
      else if name = ''churnRate'' then Number (churnRate item)
      else if name = ''activeCustomers'' then num (activeCustomers item)
      else if name = ''purchases'' then num (purchases item)
      else if name \<in> set inheritedFunctions then FunctionObject
      else if name = ''__proto__'' then PlainObject
      else Undefined)"

record CustomConfig =
  numerator :: string
  denominator :: string

record Rates =
  visitorToPriceViewRate :: jsnum
  priceViewToCheckoutRate :: jsnum
  checkoutToPurchaseRate :: jsnum
  customRate :: jsnum

definition rates :: "CustomConfig \<Rightarrow> DashboardData \<Rightarrow> Rates" where
  "rates customConfig item =
     \<lparr>visitorToPriceViewRate = calculateRate (num (pricingViews item)) (num (visitors item)),
      priceViewToCheckoutRate = calculateRate (num (checkouts item)) (num (pricingViews item)),
      checkoutToPurchaseRate = calculateRate (num (purchases item)) (num (checkouts item)),
      customRate = calculateRate (field item (numerator customConfig))
                     (field item (denominator customConfig))\<rparr>"

definition processedData :: "CustomConfig \<Rightarrow> DashboardData list \<Rightarrow> (DashboardData \<times> Rates) list" where
  "processedData customConfig data = map (\<lambda>item. (item, rates customConfig item)) data"

section \<open>Concrete inputs\<close>

text \<open>Zones: UTC, a zone at a fixed offset, and New York around the end of daylight
  saving time on 2024-11-03 (clocks go from 02:00 back to 01:00 at 06:00 UTC; a local
  time that occurs twice is taken with the offset before the change).\<close>

definition utc :: Zone where
  "utc = \<lparr>atInstant = (\<lambda>_. 0), atLocal = (\<lambda>_. 0)\<rparr>"


definition newYorkAutumn2024 :: Zone where
  "newYorkAutumn2024 =
     \<lparr>atInstant = (\<lambda>t. if t < 20030 * 86400000 + 6 * 3600000 then - 4 * 3600000 else - 5 * 3600000),
      atLocal = (\<lambda>t. if t < 20030 * 86400000 + 2 * 3600000 then - 4 * 3600000 else - 5 * 3600000)\<rparr>"

text \<open>Two days of a ledger (2024-01-01 and 2024-01-02) and an analytics series that knows
  only the first day and counts other purchases than the ledger.\<close>

definition exLedger :: "LemonSqueezyMetrics list" where
  "exLedger =
     [\<lparr>LemonSqueezyMetrics.date = 19723, mrr = 40, revenue = 50, renewalRevenue = 0,
       churnRate = 0, activeCustomers = 2, purchases = 3\<rparr>,
      \<lparr>LemonSqueezyMetrics.date = 19724, mrr = 40, revenue = 100, renewalRevenue = 20,
       churnRate = 0, activeCustomers = 2, purchases = 1\<rparr>]"

definition exAnalytics :: "PostHogMetrics list" where
  "exAnalytics =
     [\<lparr>PostHogMetrics.date = 19723, visitors = 100, pricingViews = 20, checkouts = 5,
       purchases = 7, referringDomains = [(''direct'', 100)]\<rparr>]"


text \<open>A record with no checkouts.\<close>

definition exItem :: DashboardData where
  "exItem =
     \<lparr>date = 19723, visitors = 100, pricingViews = 20, checkouts = 0,
      referringDomains = [(''direct'', 60), (''google.com'', 40)],
      mrr = Fin 40, revenue = Fin 50, renewalRevenue = Fin 0, churnRate = Fin 0, activeCustomers = 2,
      purchases = 1\<rparr>"

text \<open>A record with one visitor and the revenue \<open>2 ^ 1023\<close>, a double.\<close>

definition hugeAmount :: real where
  "hugeAmount = 2 ^ 1023"

definition hugeItem :: DashboardData where
  "hugeItem = exItem\<lparr>visitors := 1, revenue := Fin hugeAmount\<rparr>"


text \<open>A sequence of draws: a quarter first, then halves.\<close>

definition exDraws :: "nat \<Rightarrow> real" where
  "exDraws i = (if i = 0 then 1 / 4 else 1 / 2)"

text \<open>
  A store with an API key, on a server running in UTC.  Orders come on two pages, newest
  first: on 2024-03-05 a paid order of 25.00 and a refunded one, then a paid order of
  2024-03-01.  Invoices: the initial invoice of the paid order and a renewal of 19.00 on
  2024-03-04 at 08:00.  Two customers, one of them with an active subscription.  \<open>exRun\<close>
  is the run for the range 2024-03-04 .. 2024-03-06 (midnight to midnight).
\<close>

definition exEnv :: Env where
  "exEnv = \<lparr>LEMONSQUEEZY_API_KEY = Some ''key'', LEMONSQUEEZY_STORE_ID = Some ''42'', TZ = utc\<rparr>"

definition exOrders :: "nat \<Rightarrow> Order response" where
  "exOrders page =
     (if page = 1
      then Page [\<lparr>Order.status = ''paid'', total = 2500,
                   created_at = 19787 * 86400000 + 10 * 3600000\<rparr>,
                 \<lparr>Order.status = ''refunded'', total = 900,
                   created_at = 19787 * 86400000 + 9 * 3600000\<rparr>] (Some 2)
      else Page [\<lparr>Order.status = ''paid'', total = 1000,
                   created_at = 19783 * 86400000\<rparr>] (Some 2))"

definition exRenewal :: Invoice where
  "exRenewal = \<lparr>Invoice.status = ''paid'', billing_reason = ''renewal'', order_id = None,
                 total = 1900, created_at = 19786 * 86400000 + 8 * 3600000\<rparr>"

definition exInvoices :: "nat \<Rightarrow> Invoice response" where
  "exInvoices page =
     Page [\<lparr>Invoice.status = ''paid'', billing_reason = ''initial'', order_id = Some 7,
             total = 2500, created_at = 19787 * 86400000 + 10 * 3600000\<rparr>,
           exRenewal] (Some 1)"

definition exApi :: Provider where
  "exApi =
     \<lparr>listOrders = (\<lambda>_. exOrders),
      listSubscriptionInvoices = (\<lambda>_. exInvoices),
      listCustomers = (\<lambda>_ _. Page [\<lparr>id' = 1, mrr = Some 1900\<rparr>, \<lparr>id' = 2, mrr = Some 2900\<rparr>] (Some 1)),
      listSubscriptions = (\<lambda>_ _. Page [\<lparr>customer_id = 1\<rparr>] (Some 1))\<rparr>"

text \<open>A provider with nothing to report: every endpoint has one empty page.\<close>

definition quietApi :: Provider where
  "quietApi =
     \<lparr>listOrders = (\<lambda>_ _. Page [] (Some 1)),
      listSubscriptionInvoices = (\<lambda>_ _. Page [] (Some 1)),
      listCustomers = (\<lambda>_ _. Page [] (Some 1)),
      listSubscriptions = (\<lambda>_ _. Page [] (Some 1))\<rparr>"

definition exStart :: int where
  "exStart = 19786 * 86400000"

definition exEnd :: int where
  "exEnd = 19788 * 86400000"

definition exRun :: Run where
  "exRun =
     \<lparr>series =
        [\<lparr>LemonSqueezyMetrics.date = 19786, mrr = 19, revenue = 19, renewalRevenue = 19,
          churnRate = 0, activeCustomers = 1, purchases = 0\<rparr>,
         \<lparr>LemonSqueezyMetrics.date = 19787, mrr = 19, revenue = 25, renewalRevenue = 0,
          churnRate = 0, activeCustomers = 1, purchases = 1\<rparr>,
         \<lparr>LemonSqueezyMetrics.date = 19788, mrr = 19, revenue = 0, renewalRevenue = 0,
          churnRate = 0, activeCustomers = 1, purchases = 0\<rparr>],
      console = [],
      requests = [(Orders, 1), (Orders, 2), (SubscriptionInvoices, 1), (Customers, 1),
                  (Subscriptions, 1)]\<rparr>"





text \<open>
  The range \<open>7d\<close> as \<open>getDashboardData\<close> makes it with its two \<open>new Date()\<close> when the clock
  ticks between them: \<open>endDate\<close> is 12:00:00.000 of day 7 and \<open>startDate\<close>, read a
  millisecond later and set back seven days, is 12:00:00.001 of day 0.  The provider's
  only record is a paid order of 25.00 created at 10:00 of day 7.
\<close>

definition tickStart :: int where
  "tickStart = 12 * 3600000 + 1"

definition tickEnd :: int where
  "tickEnd = 7 * 86400000 + 12 * 3600000"

definition todayOrder :: Order where
  "todayOrder = \<lparr>Order.status = ''paid'', total = 2500, created_at = 7 * 86400000 + 10 * 3600000\<rparr>"

definition todayApi :: Provider where
  "todayApi = quietApi\<lparr>listOrders := (\<lambda>_ _. Page [todayOrder] (Some 1))\<rparr>"

definition tickRun :: Run where
  "tickRun =
     \<lparr>series =
        map (\<lambda>d. \<lparr>LemonSqueezyMetrics.date = d, mrr = 0, revenue = 0, renewalRevenue = 0,
                   churnRate = 0, activeCustomers = 0, purchases = 0\<rparr>)
          [0, 1, 2, 3, 4, 5, 6],
      console = [],
      requests = [(Orders, 1), (SubscriptionInvoices, 1), (Customers, 1), (Subscriptions, 1)]\<rparr>"

text \<open>Endpoints whose pages are all empty and all report the same last page; environments
  without an API key and without a store id.\<close>

definition emptyPages :: "nat \<Rightarrow> nat \<Rightarrow> 'a response" where
  "emptyPages lastPage page = Page [] (Some lastPage)"





text \<open>A server in New York, asked on the quiet provider for 2024-11-02 19:30 local time
  (23:30 UTC) to 2024-11-05 12:00 UTC.\<close>

definition nyEnv :: Env where
  "nyEnv = exEnv\<lparr>TZ := newYorkAutumn2024\<rparr>"

definition nyStart :: int where
  "nyStart = 20029 * 86400000 + 23 * 3600000 + 30 * 60000"

definition nyEnd :: int where
  "nyEnd = 20032 * 86400000 + 12 * 3600000"

definition nyRun :: Run where
  "nyRun =
     \<lparr>series =
        [\<lparr>LemonSqueezyMetrics.date = 20029, mrr = 0, revenue = 0, renewalRevenue = 0,
          churnRate = 0, activeCustomers = 0, purchases = 0\<rparr>,
         \<lparr>LemonSqueezyMetrics.date = 20031, mrr = 0, revenue = 0, renewalRevenue = 0,
          churnRate = 0, activeCustomers = 0, purchases = 0\<rparr>,
         \<lparr>LemonSqueezyMetrics.date = 20032, mrr = 0, revenue = 0, renewalRevenue = 0,
          churnRate = 0, activeCustomers = 0, purchases = 0\<rparr>],
      console = [],
      requests = [(Orders, 1), (SubscriptionInvoices, 1), (Customers, 1), (Subscriptions, 1)]\<rparr>"




section \<open>Auxiliary notions for the proofs\<close>


text \<open>
  The value of a finite number (0 for the others), the total of a number field over a
  series as the sum of the values, and the same total taken in doubles from left to right.
  An addition is exact when both operands are finite and the double sum is their sum.
  \<open>roundingFree\<close> follows the aggregator through a series and says that every addition
  it makes to \<open>revenue\<close> and \<open>renewalRevenue\<close> is exact; \<open>exactBuckets\<close> says so for a
  granularity.
\<close>

definition finiteValue :: "jsnum \<Rightarrow> real" where
  "finiteValue n = (case n of Fin x \<Rightarrow> x | _ \<Rightarrow> 0)"

definition total :: "(DashboardData \<Rightarrow> jsnum) \<Rightarrow> DashboardData list \<Rightarrow> real" where
  "total f items = sum_list (map (\<lambda>item. finiteValue (f item)) items)"








text \<open>Counts that a double holds exactly.\<close>

definition safeCount :: "int \<Rightarrow> bool" where
  "safeCount n \<longleftrightarrow> \<bar>n\<bar> \<le> 2 ^ 53"

text \<open>What \<open>Math.random()\<close> promises of every draw.\<close>

definition unit_draws :: "(nat \<Rightarrow> real) \<Rightarrow> bool" where
  "unit_draws rnd \<longleftrightarrow> (\<forall>i. 0 \<le> rnd i \<and> rnd i < 1)"

text \<open>The records of one response, and the records on the pages \<open>1, \<dots>, p\<close> of an endpoint:
  what a loop that ended with counter \<open>p\<close> has been shown.\<close>

definition pageItems :: "'a response \<Rightarrow> 'a list" where
  "pageItems resp = (case resp of Page items _ \<Rightarrow> items | _ \<Rightarrow> [])"

definition seen :: "(nat \<Rightarrow> 'a response) \<Rightarrow> nat \<Rightarrow> 'a list" where
  "seen list p = concat (map (\<lambda>k. pageItems (list k)) [1..<Suc p])"

text \<open>Every page reports a last page between 1 and \<open>L\<close>.\<close>

definition reportsLastPage :: "(nat \<Rightarrow> 'a response) \<Rightarrow> nat \<Rightarrow> bool" where
  "reportsLastPage list L \<longleftrightarrow>
     (\<forall>k. \<exists>items lastPage. list k = Page items (Some lastPage) \<and> 0 < lastPage \<and> lastPage \<le> L)"

text \<open>
  The ledger in closed form: the paid orders and the paid renewal (non-initial) invoices
  of a day, their amounts in currency units, and the record they make for that day.
\<close>

definition zeroEntry :: DailyEntry where
  "zeroEntry = \<lparr>DailyEntry.revenue = 0, DailyEntry.renewalRevenue = 0, DailyEntry.purchases = 0\<rparr>"

definition paidOrdersOn :: "Order list \<Rightarrow> int \<Rightarrow> Order list" where
  "paidOrdersOn orders d =
     filter (\<lambda>order. Order.status order = ''paid'' \<and> isoDate (Order.created_at order) = d) orders"

definition renewalsOn :: "Invoice list \<Rightarrow> int \<Rightarrow> Invoice list" where
  "renewalsOn invoices d =
     filter (\<lambda>invoice. Invoice.status invoice = ''paid'' \<and> \<not> isInitial invoice
                \<and> isoDate (Invoice.created_at invoice) = d) invoices"

definition orderRevenue :: "Order list \<Rightarrow> int \<Rightarrow> real" where
  "orderRevenue orders d = (\<Sum>order \<leftarrow> paidOrdersOn orders d. real_of_int (Order.total order) / 100)"

definition renewalTotal :: "Invoice list \<Rightarrow> int \<Rightarrow> real" where
  "renewalTotal invoices d =
     (\<Sum>invoice \<leftarrow> renewalsOn invoices d. real_of_int (Invoice.total invoice) / 100)"

definition ledgerRecord ::
  "real \<Rightarrow> int \<Rightarrow> Order list \<Rightarrow> Invoice list \<Rightarrow> int \<Rightarrow> LemonSqueezyMetrics" where
  "ledgerRecord mrrNow activeCount orders invoices d =
     \<lparr>LemonSqueezyMetrics.date = d, mrr = mrrNow,
      revenue = orderRevenue orders d + renewalTotal invoices d,
      renewalRevenue = renewalTotal invoices d, churnRate = 0,
      activeCustomers = activeCount, purchases = int (length (paidOrdersOn orders d))\<rparr>"

text \<open>The effect of one order, and of one invoice, on the entry of day \<open>d\<close>.\<close>

definition addOrder :: "Order \<Rightarrow> int \<Rightarrow> DailyEntry \<Rightarrow> DailyEntry" where
  "addOrder order d m =
     (if Order.status order = ''paid'' \<and> isoDate (Order.created_at order) = d
      then m\<lparr>DailyEntry.revenue := DailyEntry.revenue m + real_of_int (Order.total order) / 100,
             DailyEntry.purchases := DailyEntry.purchases m + 1\<rparr>
      else m)"

definition addInvoice :: "Invoice \<Rightarrow> int \<Rightarrow> DailyEntry \<Rightarrow> DailyEntry" where
  "addInvoice invoice d m =
     (if Invoice.status invoice = ''paid'' \<and> \<not> isInitial invoice
         \<and> isoDate (Invoice.created_at invoice) = d
      then m\<lparr>DailyEntry.revenue := DailyEntry.revenue m + real_of_int (Invoice.total invoice) / 100,
             DailyEntry.renewalRevenue :=
               DailyEntry.renewalRevenue m + real_of_int (Invoice.total invoice) / 100\<rparr>
      else m)"




definition nonnegTotals :: "(nat \<Rightarrow> Order response) \<Rightarrow> bool" where
  "nonnegTotals list \<longleftrightarrow> (\<forall>k. \<forall>order \<in> set (pageItems (list k)). 0 \<le> Order.total order)"



section \<open>Properties of the number model\<close>

text \<open>Rounding moves a real by at most half a unit in the last place, and that unit is at
  most the real's absolute value (or 1): a real well below the overflow threshold rounds
  to a finite double.\<close>

lemma roundEven_near: "\<bar>real_of_int (roundEven q) - q\<bar> \<le> 1 / 2"
  unfolding roundEven_def Let_def by (auto simp: abs_le_iff)

lemma fold_up_le:
  "2 ^ s \<le> a \<Longrightarrow> 2 ^ fold (\<lambda>k s. if 2 ^ (s + k) \<le> a then s + k else s) ks s \<le> (a::real)"
  by (induction ks arbitrary: s) simp_all

lemma exponent_large: "1 \<le> \<bar>x\<bar> \<Longrightarrow> 0 \<le> exponent x \<and> 2 ^ nat (exponent x) \<le> \<bar>x\<bar>"
  using fold_up_le [of 0 "\<bar>x\<bar>" binarySteps] by (simp add: exponent_def)

lemma exponent_small: "\<bar>x\<bar> < 1 \<Longrightarrow> exponent x \<le> 0"
  by (simp add: exponent_def)

lemma ulp_pos: "0 < ulp x"
  by (simp add: ulp_def)

lemma ulp_le: "ulp x \<le> max 1 \<bar>x\<bar>"
proof (cases "52 \<le> exponent x")
  case True
  then have large: "1 \<le> \<bar>x\<bar>" using exponent_small [of x] by (cases "1 \<le> \<bar>x\<bar>") auto
  from True have "ulp x = 2 ^ nat (exponent x - 52)" by (simp add: ulp_def)
  also have "\<dots> \<le> 2 ^ nat (exponent x)" by (rule power_increasing) simp_all
  also have "\<dots> \<le> \<bar>x\<bar>" using exponent_large [OF large] by simp
  finally show ?thesis by simp
next
  case False
  then have "ulp x = 1 / 2 ^ nat (52 - exponent x)" by (simp add: ulp_def)
  also have "\<dots> \<le> 1" by (simp add: divide_le_eq)
  finally show ?thesis by simp
qed

lemma round64_finite:
  assumes "\<bar>x\<bar> \<le> B" and "1 \<le> B" and "2 * B < overflowThreshold"
  shows "\<exists>y. round64 x = Fin y \<and> \<bar>y\<bar> \<le> 2 * B"
proof (cases "x = 0")
  case True
  with assms show ?thesis by (simp add: round64_def)
next
  case False
  define u where "u = ulp x"
  define y where "y = real_of_int (roundEven (x / u)) * u"
  have u: "0 < u" "u \<le> max 1 \<bar>x\<bar>" unfolding u_def by (rule ulp_pos, rule ulp_le)
  have "y - x = (real_of_int (roundEven (x / u)) - x / u) * u"
    using u(1) by (simp add: y_def algebra_simps)
  then have "\<bar>y - x\<bar> = \<bar>real_of_int (roundEven (x / u)) - x / u\<bar> * u"
    using u(1) by (simp add: abs_mult)
  also have "\<dots> \<le> 1 / 2 * u"
    using roundEven_near [of "x / u"] u(1) by (intro mult_right_mono) simp_all
  finally have "\<bar>y - x\<bar> \<le> u / 2" by simp
  moreover have "u \<le> B" using u(2) assms(1,2) by (simp add: max_def split: if_splits)
  ultimately have bound: "\<bar>y\<bar> \<le> 2 * B" using assms(1) by linarith
  with assms(3) have "\<not> overflowThreshold \<le> y" "\<not> y \<le> - overflowThreshold" by (auto simp: abs_le_iff)
  with False bound show ?thesis
    by (simp add: round64_def Let_def y_def u_def)
qed

lemma threshold_large: "2 ^ 62 < overflowThreshold"
  unfolding overflowThreshold_def by (rule power_strict_increasing) simp_all




section \<open>Properties of the series merger\<close>

lemma spread_found_date:
  "date (spread l (case find (\<lambda>p. PostHogMetrics.date p = LemonSqueezyMetrics.date l) ps of
                     Some p \<Rightarrow> p | None \<Rightarrow> fallbackItem (LemonSqueezyMetrics.date l)))
     = LemonSqueezyMetrics.date l"
  by (auto simp: spread_def fallbackItem_def find_Some_iff split: option.splits)

lemma map_date_mergedData:
  "map date (mergedData lemonData postHogData) = map LemonSqueezyMetrics.date lemonData"
  by (simp add: mergedData_def spread_found_date o_def)

lemma length_mergedData: "length (mergedData lemonData postHogData) = length lemonData"
  by (simp add: mergedData_def)

lemma mergedData_nth:
  "i < length lemonData \<Longrightarrow>
     mergedData lemonData postHogData ! i =
       spread (lemonData ! i)
         (case find (\<lambda>p. PostHogMetrics.date p = LemonSqueezyMetrics.date (lemonData ! i))
                 postHogData of
            Some p \<Rightarrow> p
          | None \<Rightarrow> fallbackItem (LemonSqueezyMetrics.date (lemonData ! i)))"
  by (simp add: mergedData_def)

lemma spread_purchases: "purchases (spread l p) = LemonSqueezyMetrics.purchases l"
  by (simp add: spread_def)

lemma count_key_distinct:
  "distinct (map f xs) \<Longrightarrow> x \<in> set xs \<Longrightarrow> length (filter (\<lambda>y. f y = f x) xs) = 1"
proof (induction xs)
  case Nil
  then show ?case by simp
next
  case (Cons a xs)
  show ?case
  proof (cases "f a = f x")
    case True
    with Cons.prems have "\<forall>y \<in> set xs. f y \<noteq> f x" by (auto simp: image_iff)
    then have "filter (\<lambda>y. f y = f x) xs = []" by (simp add: filter_empty_conv)
    with True show ?thesis by simp
  next
    case False
    with Cons show ?thesis by auto
  qed
qed

text \<open>
  C1.  Every record of the merged series carries the date of a ledger record and that
  record's \<open>purchases\<close>; when the ledger's dates are unique (as in every ledger the builder
  returns) it is the \<open>purchases\<close> of the one ledger record with that date.  The analytics
  series plays no part in the value.
\<close>

theorem merged_purchases_from_ledger:
  assumes "m \<in> set (mergedData lemonData postHogData)"
  shows "(\<exists>l \<in> set lemonData. LemonSqueezyMetrics.date l = date m
            \<and> purchases m = LemonSqueezyMetrics.purchases l)
       \<and> (distinct (map LemonSqueezyMetrics.date lemonData) \<longrightarrow>
            (\<forall>l \<in> set lemonData. LemonSqueezyMetrics.date l = date m
               \<longrightarrow> purchases m = LemonSqueezyMetrics.purchases l))"
proof -
  from assms obtain l where l: "l \<in> set lemonData"
    and m: "m = spread l
                  (case find (\<lambda>p. PostHogMetrics.date p = LemonSqueezyMetrics.date l) postHogData of
                     Some p \<Rightarrow> p
                   | None \<Rightarrow> fallbackItem (LemonSqueezyMetrics.date l))"
    by (auto simp: mergedData_def)
  have d: "date m = LemonSqueezyMetrics.date l"
    unfolding m by (rule spread_found_date)
  have p: "purchases m = LemonSqueezyMetrics.purchases l"
    unfolding m by (rule spread_purchases)
  have "l' = l"
    if "distinct (map LemonSqueezyMetrics.date lemonData)" "l' \<in> set lemonData"
      "LemonSqueezyMetrics.date l' = date m" for l'
    using that l d by (auto simp: distinct_map inj_on_def)
  with l d p show ?thesis by auto
qed

theorem merged_purchases_from_ledger_witness:
  "mergedData exLedger exAnalytics ! 0 \<in> set (mergedData exLedger exAnalytics)
   \<and> distinct (map LemonSqueezyMetrics.date exLedger)
   \<and> PostHogMetrics.purchases (exAnalytics ! 0) = 7
   \<and> date (mergedData exLedger exAnalytics ! 0) = 19723
   \<and> purchases (mergedData exLedger exAnalytics ! 0) = 3
   \<and> purchases (mergedData exLedger exAnalytics ! 0) = LemonSqueezyMetrics.purchases (exLedger ! 0)"
  using merged_purchases_from_ledger [of "mergedData exLedger exAnalytics ! 0" exLedger exAnalytics]
  by (simp add: mergedData_def exLedger_def exAnalytics_def spread_def fallbackItem_def)

text \<open>
  C3.  The merged series has the ledger's length and the ledger's dates in the ledger's
  order.  With unique ledger dates each of them is the date of exactly one merged record.
  A ledger record whose date no analytics record carries is merged with zero \<open>visitors\<close>,
  \<open>pricingViews\<close>, \<open>checkouts\<close> and an empty \<open>referringDomains\<close> map.
\<close>

theorem merging_total:
  assumes "distinct (map LemonSqueezyMetrics.date lemonData)"
  shows "length (mergedData lemonData postHogData) = length lemonData
       \<and> map date (mergedData lemonData postHogData) = map LemonSqueezyMetrics.date lemonData
       \<and> (\<forall>l \<in> set lemonData.
            length (filter (\<lambda>m. date m = LemonSqueezyMetrics.date l)
                      (mergedData lemonData postHogData)) = 1)
       \<and> (\<forall>i < length lemonData.
            (\<forall>p \<in> set postHogData.
                PostHogMetrics.date p \<noteq> LemonSqueezyMetrics.date (lemonData ! i))
            \<longrightarrow> visitors (mergedData lemonData postHogData ! i) = 0
              \<and> pricingViews (mergedData lemonData postHogData ! i) = 0
              \<and> checkouts (mergedData lemonData postHogData ! i) = 0
              \<and> referringDomains (mergedData lemonData postHogData ! i) = [])"
proof -
  have one: "length (filter (\<lambda>m. date m = LemonSqueezyMetrics.date l)
                       (mergedData lemonData postHogData)) = 1"
    if "l \<in> set lemonData" for l
  proof -
    have "length (filter (\<lambda>m. date m = LemonSqueezyMetrics.date l)
                    (mergedData lemonData postHogData))
        = length (filter (\<lambda>d. d = LemonSqueezyMetrics.date l)
                    (map date (mergedData lemonData postHogData)))"
      by (simp add: filter_map o_def)
    also have "\<dots> = length (filter (\<lambda>y. LemonSqueezyMetrics.date y = LemonSqueezyMetrics.date l)
                           lemonData)"
      by (simp add: map_date_mergedData filter_map o_def)
    also have "\<dots> = 1"
      using assms that by (rule count_key_distinct)
    finally show ?thesis .
  qed
  have zero: "visitors (mergedData lemonData postHogData ! i) = 0
              \<and> pricingViews (mergedData lemonData postHogData ! i) = 0
              \<and> checkouts (mergedData lemonData postHogData ! i) = 0
              \<and> referringDomains (mergedData lemonData postHogData ! i) = []"
    if "i < length lemonData"
      "\<forall>p \<in> set postHogData. PostHogMetrics.date p \<noteq> LemonSqueezyMetrics.date (lemonData ! i)"
    for i
  proof -
    from that(2)
    have "find (\<lambda>p. PostHogMetrics.date p = LemonSqueezyMetrics.date (lemonData ! i)) postHogData
            = None"
      by (simp add: find_None_iff)
    with that(1) show ?thesis
      by (simp add: mergedData_nth spread_def fallbackItem_def)
  qed
  from one zero show ?thesis
    by (simp add: length_mergedData map_date_mergedData)
qed

theorem merging_total_witness:
  "distinct (map LemonSqueezyMetrics.date exLedger)
   \<and> map date (mergedData exLedger exAnalytics) = [19723, 19724]
   \<and> length (filter (\<lambda>m. date m = 19724) (mergedData exLedger exAnalytics)) = 1
   \<and> find (\<lambda>p. PostHogMetrics.date p = LemonSqueezyMetrics.date (exLedger ! 1)) exAnalytics = None
   \<and> visitors (mergedData exLedger exAnalytics ! 1) = 0
   \<and> referringDomains (mergedData exLedger exAnalytics ! 1) = []"
  using merging_total [of exLedger exAnalytics]
  by (simp add: mergedData_def exLedger_def exAnalytics_def spread_def fallbackItem_def)

section \<open>Properties of the time-bucket aggregator\<close>


































section \<open>Properties of the rate calculator\<close>

lemma calculateRate_unfolded:
  "calculateRate n d
     = (if falsy d then Fin 0 else times_js (divide_js (toNumber n) (toNumber d)) (Fin 100))"
  by (auto simp: calculateRate_def)

lemma calculateRate_counts:
  assumes a: "safeCount a" and b: "safeCount b"
  shows "\<exists>x. calculateRate (num a) (num b) = Fin x"
proof (cases "b = 0")
  case True
  then show ?thesis by (simp add: calculateRate_def num_def)
next
  case False
  then have "1 \<le> \<bar>real_of_int b\<bar>" by linarith
  then have "\<bar>real_of_int a\<bar> * 1 \<le> \<bar>real_of_int a\<bar> * \<bar>real_of_int b\<bar>"
    by (intro mult_left_mono) simp_all
  with False have "\<bar>real_of_int a / real_of_int b\<bar> \<le> \<bar>real_of_int a\<bar>"
    by (simp add: divide_le_eq)
  also have "\<dots> \<le> 2 ^ 53"
  proof -
    from a have "real_of_int \<bar>a\<bar> \<le> real_of_int (2 ^ 53)"
      unfolding safeCount_def by (simp only: of_int_le_iff)
    then show ?thesis by simp
  qed
  finally have q: "\<bar>real_of_int a / real_of_int b\<bar> \<le> 2 ^ 53" .
  have "(2::real) * 2 ^ 53 < 2 ^ 62" by simp
  then have "(2::real) * 2 ^ 53 < overflowThreshold" using threshold_large by linarith
  from round64_finite [OF q _ this] obtain y
    where y: "round64 (real_of_int a / real_of_int b) = Fin y" "\<bar>y\<bar> \<le> 2 * 2 ^ 53"
    by auto
  from y(2) have p: "\<bar>y * 100\<bar> \<le> 2 ^ 61" by (simp add: abs_mult)
  have "(2::real) * 2 ^ 61 < overflowThreshold" using threshold_large by simp
  from round64_finite [OF p _ this] obtain z where "round64 (y * 100) = Fin z"
    by auto
  with False y(1) show ?thesis
    by (simp add: calculateRate_def num_def)
qed

lemma example_rates:
  "calculateRate (num 1) (num 4) = Fin 25"
  "calculateRate (num 20) (num 100) = Fin 20"
  "calculateRate (num 1) (num 0) = Fin 0"
  "calculateRate (num 1) (num 100) = Fin 1"
  by (simp_all add: calculateRate_def num_def round64_def overflowThreshold_def ulp_def
      exponent_def binarySteps_def roundEven_def Let_def)

lemma overflow_rate:
  "calculateRate (Number (Fin hugeAmount)) (num 1) = PosInfinity"
  by (simp add: calculateRate_def num_def hugeAmount_def round64_def overflowThreshold_def ulp_def
      exponent_def binarySteps_def roundEven_def Let_def)

lemma exItem_fields:
  "field exItem ''signups'' = Undefined"
  "field exItem ''visitors'' = num 100"
  "field exItem ''purchases'' = num 1"
  "field exItem ''constructor'' = FunctionObject"
  "field hugeItem ''revenue'' = Number (Fin hugeAmount)"
  "field hugeItem ''visitors'' = num 1"
  by (simp_all add: field_def exItem_def hugeItem_def inheritedFunctions_def)

lemma exItem_counts:
  "visitors exItem = 100" "pricingViews exItem = 20" "checkouts exItem = 0"
  "purchases exItem = 1"
  by (simp_all add: exItem_def)

lemma exItem_safe:
  "safeCount (visitors exItem)" "safeCount (pricingViews exItem)"
  "safeCount (checkouts exItem)" "safeCount (purchases exItem)"
  by (simp_all add: safeCount_def exItem_counts)

lemma exItem_rates:
  "visitorToPriceViewRate (rates \<lparr>numerator = ''purchases'', denominator = ''visitors''\<rparr> exItem)
     = Fin 20"
  "checkoutToPurchaseRate (rates \<lparr>numerator = ''purchases'', denominator = ''visitors''\<rparr> exItem)
     = Fin 0"
  "customRate (rates \<lparr>numerator = ''purchases'', denominator = ''visitors''\<rparr> exItem) = Fin 1"
  "customRate (rates \<lparr>numerator = ''purchases'', denominator = ''signups''\<rparr> exItem) = Fin 0"
  by (simp_all add: rates_def exItem_fields exItem_counts example_rates)
    (simp add: calculateRate_unfolded)

text \<open>
  C6, as the code has it.  A falsy denominator value (zero, \<open>NaN\<close>, or the \<open>undefined\<close> of
  a name that the record neither has nor inherits) gives exactly 0 whatever the numerator
  is, an absent one included.  Any other denominator gives the double
  \<open>(numerator / denominator) * 100\<close> of the operands converted to numbers, which is \<open>NaN\<close>
  as soon as one of them converts to \<open>NaN\<close>.  The three fixed funnel rates of a record
  whose counts are at most \<open>2 ^ 53\<close> in absolute value are finite numbers.
\<close>

theorem rate_calculation:
  "(falsy d \<longrightarrow> calculateRate n d = Fin 0)
   \<and> (\<not> falsy d \<longrightarrow>
        calculateRate n d = times_js (divide_js (toNumber n) (toNumber d)) (Fin 100))
   \<and> (\<not> falsy d \<and> (toNumber n = NaN \<or> toNumber d = NaN) \<longrightarrow> calculateRate n d = NaN)
   \<and> (field item (denominator customConfig) = Undefined \<longrightarrow>
        customRate (rates customConfig item) = Fin 0)
   \<and> (safeCount (visitors item) \<and> safeCount (pricingViews item) \<and> safeCount (checkouts item)
        \<and> safeCount (purchases item) \<longrightarrow>
        (\<exists>x y z. visitorToPriceViewRate (rates customConfig item) = Fin x
           \<and> priceViewToCheckoutRate (rates customConfig item) = Fin y
           \<and> checkoutToPurchaseRate (rates customConfig item) = Fin z))"
proof (intro conjI impI)
  show "calculateRate n d = Fin 0" if "falsy d"
    using that by (simp add: calculateRate_unfolded)
  show "calculateRate n d = times_js (divide_js (toNumber n) (toNumber d)) (Fin 100)"
    if "\<not> falsy d"
    using that by (simp add: calculateRate_unfolded)
  show "calculateRate n d = NaN" if "\<not> falsy d \<and> (toNumber n = NaN \<or> toNumber d = NaN)"
  proof -
    from that have "divide_js (toNumber n) (toNumber d) = NaN"
      by (cases "toNumber n"; cases "toNumber d") auto
    with that show ?thesis by (simp add: calculateRate_unfolded)
  qed
  show "customRate (rates customConfig item) = Fin 0"
    if "field item (denominator customConfig) = Undefined"
    using that by (simp add: rates_def calculateRate_unfolded)
  show "\<exists>x y z. visitorToPriceViewRate (rates customConfig item) = Fin x
           \<and> priceViewToCheckoutRate (rates customConfig item) = Fin y
           \<and> checkoutToPurchaseRate (rates customConfig item) = Fin z"
    if safe: "safeCount (visitors item) \<and> safeCount (pricingViews item)
                \<and> safeCount (checkouts item) \<and> safeCount (purchases item)"
  proof -
    from safe obtain x where x: "calculateRate (num (pricingViews item)) (num (visitors item)) = Fin x"
      using calculateRate_counts by blast
    from safe obtain y where y: "calculateRate (num (checkouts item)) (num (pricingViews item)) = Fin y"
      using calculateRate_counts by blast
    from safe obtain z where z: "calculateRate (num (purchases item)) (num (checkouts item)) = Fin z"
      using calculateRate_counts by blast
    from x y z show ?thesis by (simp add: rates_def)
  qed
qed

theorem rate_calculation_witness:
  "falsy (num 0) \<and> calculateRate (num 1) (num 0) = Fin 0
   \<and> \<not> falsy (num 4) \<and> calculateRate (num 1) (num 4) = Fin 25
   \<and> field exItem ''signups'' = Undefined
   \<and> customRate (rates \<lparr>numerator = ''purchases'', denominator = ''signups''\<rparr> exItem) = Fin 0
   \<and> safeCount (visitors exItem) \<and> safeCount (pricingViews exItem)
   \<and> safeCount (checkouts exItem) \<and> safeCount (purchases exItem)
   \<and> visitorToPriceViewRate
        (rates \<lparr>numerator = ''purchases'', denominator = ''visitors''\<rparr> exItem) = Fin 20
   \<and> checkoutToPurchaseRate
        (rates \<lparr>numerator = ''purchases'', denominator = ''visitors''\<rparr> exItem) = Fin 0
   \<and> customRate
        (rates \<lparr>numerator = ''purchases'', denominator = ''visitors''\<rparr> exItem) = Fin 1"
proof -
  have zero: "falsy (num 0)" and four: "\<not> falsy (num 4)"
    by (simp_all add: num_def)
  from rate_calculation [of "num 0" "num 1" exItem
      "\<lparr>numerator = ''purchases'', denominator = ''signups''\<rparr>"] zero exItem_fields(1)
  have none: "calculateRate (num 1) (num 0) = Fin 0"
    and absent: "customRate (rates \<lparr>numerator = ''purchases'', denominator = ''signups''\<rparr> exItem)
                   = Fin 0"
    by simp_all
  show ?thesis
    by (intro conjI zero four none absent example_rates(1) exItem_fields(1) exItem_safe
        exItem_rates(1,2,3))
qed

text \<open>
  The claim as stated fails in three ways.  A stored configuration whose numerator names
  a field the records do not have gives \<open>NaN\<close> over a non-zero denominator.  A
  denominator name that the records do not have but inherit, such as \<open>constructor\<close>, is a
  function: it is truthy and the rate is \<open>NaN\<close>, not 0.  And a finite numerator over a
  finite non-zero denominator can overflow: \<open>2 ^ 1023 / 1 * 100\<close> is \<open>Infinity\<close>.
\<close>

theorem rate_nan_infinity_counterexample:
  "field exItem ''signups'' = Undefined
   \<and> field exItem ''visitors'' = num 100
   \<and> customRate (rates \<lparr>numerator = ''signups'', denominator = ''visitors''\<rparr> exItem) = NaN
   \<and> field exItem ''constructor'' = FunctionObject
   \<and> customRate (rates \<lparr>numerator = ''purchases'', denominator = ''constructor''\<rparr> exItem) = NaN
   \<and> field hugeItem ''revenue'' = Number (Fin hugeAmount)
   \<and> field hugeItem ''visitors'' = num 1
   \<and> customRate (rates \<lparr>numerator = ''revenue'', denominator = ''visitors''\<rparr> hugeItem)
       = PosInfinity"
proof -
  have nan: "customRate (rates \<lparr>numerator = ''signups'', denominator = ''visitors''\<rparr> exItem) = NaN"
    "customRate (rates \<lparr>numerator = ''purchases'', denominator = ''constructor''\<rparr> exItem) = NaN"
    by (simp_all add: rates_def exItem_fields calculateRate_unfolded num_def)
  have inf: "customRate (rates \<lparr>numerator = ''revenue'', denominator = ''visitors''\<rparr> hugeItem)
               = PosInfinity"
    by (simp add: rates_def exItem_fields overflow_rate)
  show ?thesis
    by (intro conjI exItem_fields nan inf)
qed
section \<open>Properties of the mock analytics series\<close>

lemma update_fresh: "k \<notin> fst ` set al \<Longrightarrow> AList.update k v al = al @ [(k, v)]"
  by (induction al) auto

lemma count_bounds:
  assumes "0 \<le> r" "r < 1" "0 \<le> n"
  shows "0 \<le> \<lfloor>r * (real_of_int n / 2)\<rfloor>" "\<lfloor>r * (real_of_int n / 2)\<rfloor> \<le> n"
proof -
  from assms show "0 \<le> \<lfloor>r * (real_of_int n / 2)\<rfloor>" by simp
  have "r * (real_of_int n / 2) \<le> 1 * (real_of_int n / 2)"
    using assms by (intro mult_right_mono) simp_all
  also have "\<dots> \<le> real_of_int n" using assms by simp
  finally show "\<lfloor>r * (real_of_int n / 2)\<rfloor> \<le> n" by (simp add: floor_le_iff)
qed

lemma fold_assignDomain:
  assumes "unit_draws rnd" "distinct ds" "set ds \<inter> fst ` set referring = {}" "0 \<le> remaining"
    and "fold (assignDomain rnd) ds (referring, remaining, i) = (referring', remaining', i')"
  shows "sum_list (map snd referring') + remaining' = sum_list (map snd referring) + remaining
       \<and> 0 \<le> remaining' \<and> map fst referring' = map fst referring @ ds"
  using assms
proof (induction ds arbitrary: referring remaining i)
  case Nil
  then show ?case by simp
next
  case (Cons d ds)
  let ?count = "\<lfloor>rnd i * (real_of_int remaining / 2)\<rfloor>"
  from Cons.prems(1) have r: "0 \<le> rnd i" "rnd i < 1" by (simp_all add: unit_draws_def)
  from count_bounds [OF r Cons.prems(4)] have c: "0 \<le> ?count" "?count \<le> remaining" .
  from Cons.prems(3) have fresh: "d \<notin> fst ` set referring" by auto
  have step: "assignDomain rnd d (referring, remaining, i)
                = (referring @ [(d, ?count)], remaining - ?count, Suc i)"
    by (simp add: assignDomain_def Let_def update_fresh [OF fresh])
  from Cons.prems(5)
  have run: "fold (assignDomain rnd) ds (referring @ [(d, ?count)], remaining - ?count, Suc i)
               = (referring', remaining', i')"
    by (simp add: step)
  have "set ds \<inter> fst ` set (referring @ [(d, ?count)]) = {}"
    using Cons.prems(2,3) by auto
  from Cons.IH [OF Cons.prems(1) _ this _ run] Cons.prems(2) c
  show ?case by simp
qed

lemma mockDay_shape:
  assumes "unit_draws rnd"
  shows "PostHogMetrics.pricingViews (mockDay rnd i c)
           = \<lfloor>real_of_int (PostHogMetrics.visitors (mockDay rnd i c)) * (3 / 10)\<rfloor>
       \<and> PostHogMetrics.checkouts (mockDay rnd i c)
           = \<lfloor>real_of_int (PostHogMetrics.pricingViews (mockDay rnd i c)) * (1 / 10)\<rfloor>
       \<and> PostHogMetrics.purchases (mockDay rnd i c)
           = \<lfloor>real_of_int (PostHogMetrics.checkouts (mockDay rnd i c)) * (1 / 2)\<rfloor>
       \<and> sum_list (map snd (PostHogMetrics.referringDomains (mockDay rnd i c)))
           = PostHogMetrics.visitors (mockDay rnd i c)
       \<and> distinct (map fst (PostHogMetrics.referringDomains (mockDay rnd i c)))
       \<and> 500 \<le> PostHogMetrics.visitors (mockDay rnd i c) \<and> PostHogMetrics.visitors (mockDay rnd i c) < 1000"
proof -
  let ?v = "500 + \<lfloor>rnd i * 500\<rfloor>"
  from assms have r: "0 \<le> rnd i" "rnd i < 1" by (simp_all add: unit_draws_def)
  then have v: "500 \<le> ?v" "?v < 1000" by (simp_all add: floor_less_iff)
  obtain referring remaining j
    where run: "fold (assignDomain rnd) domains ([], ?v, Suc i) = (referring, remaining, j)"
    by (cases "fold (assignDomain rnd) domains ([], ?v, Suc i)") auto
  have dd: "distinct domains" "''other'' \<notin> set domains" by (simp_all add: domains_def)
  from fold_assignDomain [OF assms dd(1) _ _ run] v
  have inv: "sum_list (map snd referring) + remaining = ?v" "0 \<le> remaining"
    "map fst referring = domains" by simp_all
  from inv(3) dd(2) have fresh: "''other'' \<notin> fst ` set referring"
    by (metis list.set_map)
  have "sum_list (map snd (if 0 < remaining then AList.update ''other'' remaining referring
                           else referring)) = ?v"
    using inv(1,2) by (simp add: update_fresh [OF fresh])
  moreover have "distinct (map fst (if 0 < remaining
                                    then AList.update ''other'' remaining referring
                                    else referring))"
    using inv(3) dd by (simp add: update_fresh [OF fresh])
  ultimately show ?thesis
    using v by (simp add: mockDay_def Let_def run)
qed

lemma mock_loop_members:
  "r \<in> set (generateMockPostHogData_loop rnd i c e data)
     \<Longrightarrow> r \<in> set data \<or> (\<exists>j d. r = mockDay rnd j d)"
proof (induction rnd i c e data rule: generateMockPostHogData_loop.induct)
  case (1 rnd i currentDate endDate data)
  show ?case
  proof (cases "currentDate \<le> endDate")
    case True
    with "1.prems"
    have "r \<in> set (generateMockPostHogData_loop rnd (i + 6) (currentDate + dayMs) endDate
                      (data @ [mockDay rnd i currentDate]))"
      by (simp del: generateMockPostHogData_loop.simps
          add: generateMockPostHogData_loop.simps [of rnd i currentDate endDate data])
    from "1.IH" [OF True this] show ?thesis by auto
  next
    case False
    with "1.prems" show ?thesis by simp
  qed
qed

lemma exDraws_series:
  "generateMockPostHogData exDraws 0 0 =
     [\<lparr>PostHogMetrics.date = 0, visitors = 625, pricingViews = 187, checkouts = 18,
       purchases = 9,
       referringDomains =
         [(''google.com'', 156), (''twitter.com'', 117), (''linkedin.com'', 88),
          (''direct'', 66), (''facebook.com'', 49), (''other'', 149)]\<rparr>]"
  by code_simp

text \<open>
  C10.  Whatever the range and the draws (each in \<open>[0, 1)\<close>), every record of the mock
  series has \<open>pricingViews = \<lfloor>0.3 \<sqdot> visitors\<rfloor>\<close>, \<open>checkouts = \<lfloor>0.1 \<sqdot> pricingViews\<rfloor>\<close>,
  \<open>purchases = \<lfloor>0.5 \<sqdot> checkouts\<rfloor>\<close>, and the counts of its \<open>referringDomains\<close>, whose
  keys are distinct, add up to \<open>visitors\<close>.
\<close>

theorem mock_series_shape:
  assumes "\<forall>i. 0 \<le> rnd i \<and> rnd i < 1"
    and "r \<in> set (generateMockPostHogData rnd startDate endDate)"
  shows "PostHogMetrics.pricingViews r = \<lfloor>0.3 * real_of_int (PostHogMetrics.visitors r)\<rfloor>
       \<and> PostHogMetrics.checkouts r = \<lfloor>0.1 * real_of_int (PostHogMetrics.pricingViews r)\<rfloor>
       \<and> PostHogMetrics.purchases r = \<lfloor>0.5 * real_of_int (PostHogMetrics.checkouts r)\<rfloor>
       \<and> sum_list (map snd (PostHogMetrics.referringDomains r)) = PostHogMetrics.visitors r
       \<and> distinct (map fst (PostHogMetrics.referringDomains r))"
proof -
  from assms(2) obtain j d where r: "r = mockDay rnd j d"
    using mock_loop_members [of r rnd 0 startDate endDate "[]"]
    by (auto simp: generateMockPostHogData_def)
  from assms(1) have "unit_draws rnd" by (simp add: unit_draws_def)
  from mockDay_shape [OF this, of j d] show ?thesis
    unfolding r by (simp add: mult.commute)
qed


theorem mock_series_shape_witness:
  "(\<forall>i. 0 \<le> exDraws i \<and> exDraws i < 1)
   \<and> hd (generateMockPostHogData exDraws 0 0) \<in> set (generateMockPostHogData exDraws 0 0)
   \<and> PostHogMetrics.visitors (hd (generateMockPostHogData exDraws 0 0)) = 625
   \<and> PostHogMetrics.pricingViews (hd (generateMockPostHogData exDraws 0 0)) = 187
   \<and> PostHogMetrics.checkouts (hd (generateMockPostHogData exDraws 0 0)) = 18
   \<and> PostHogMetrics.purchases (hd (generateMockPostHogData exDraws 0 0)) = 9
   \<and> sum_list (map snd (PostHogMetrics.referringDomains (hd (generateMockPostHogData exDraws 0 0))))
       = 625"
proof -
  have draws: "\<forall>i. 0 \<le> exDraws i \<and> exDraws i < 1"
    by (simp add: exDraws_def)
  have member: "hd (generateMockPostHogData exDraws 0 0) \<in> set (generateMockPostHogData exDraws 0 0)"
    by (simp add: exDraws_series)
  from mock_series_shape [OF draws member] draws member show ?thesis
    by (simp add: exDraws_series)
qed

section \<open>Properties of the pagination loops\<close>

lemma paginate_result:
  assumes "paginate list keep tooOld page acc = Some y"
  shows "page \<le> fst y
       \<and> (\<forall>res. snd y = Inr res \<longrightarrow>
             res = acc @ filter keep (concat (map (\<lambda>k. pageItems (list k)) [page..<Suc (fst y)])))
       \<and> (\<forall>msg. snd y = Inl msg \<longrightarrow> list (fst y) = Failure msg)"
proof (rule paginate.raw_induct
    [where P = "\<lambda>list keep tooOld page acc y. page \<le> fst y
       \<and> (\<forall>res. snd y = Inr res \<longrightarrow>
             res = acc @ filter keep (concat (map (\<lambda>k. pageItems (list k)) [page..<Suc (fst y)])))
       \<and> (\<forall>msg. snd y = Inl msg \<longrightarrow> list (fst y) = Failure msg)", OF _ assms])
  fix paginate' :: "(nat \<Rightarrow> 'a response) \<Rightarrow> ('a \<Rightarrow> bool) \<Rightarrow> ('a list \<Rightarrow> bool) \<Rightarrow> nat \<Rightarrow> 'a list
     \<Rightarrow> (nat \<times> (string + 'a list)) option"
  fix list keep tooOld page acc y
  assume IH: "\<And>list keep tooOld page acc y. paginate' list keep tooOld page acc = Some y \<Longrightarrow>
       page \<le> fst y
       \<and> (\<forall>res. snd y = Inr res \<longrightarrow>
             res = acc @ filter keep (concat (map (\<lambda>k. pageItems (list k)) [page..<Suc (fst y)])))
       \<and> (\<forall>msg. snd y = Inl msg \<longrightarrow> list (fst y) = Failure msg)"
  assume step: "(case list page of
        Failure msg \<Rightarrow> Some (page, Inl msg)
      | NoData \<Rightarrow> Some (page, Inr acc)
      | Page items meta \<Rightarrow>
          (let acc' = acc @ filter keep items in
           if tooOld items then Some (page, Inr acc')
           else if (case meta of None \<Rightarrow> False | Some lastPage \<Rightarrow> lastPage \<noteq> 0 \<and> lastPage \<le> page)
             then Some (page, Inr acc')
           else paginate' list keep tooOld (page + 1) acc')) = Some y"
  show "page \<le> fst y
       \<and> (\<forall>res. snd y = Inr res \<longrightarrow>
             res = acc @ filter keep (concat (map (\<lambda>k. pageItems (list k)) [page..<Suc (fst y)])))
       \<and> (\<forall>msg. snd y = Inl msg \<longrightarrow> list (fst y) = Failure msg)"
  proof (cases "list page")
    case (Failure msg)
    with step show ?thesis by auto
  next
    case NoData
    with step show ?thesis by (auto simp: pageItems_def)
  next
    case (Page items meta)
    show ?thesis
    proof (cases "tooOld items \<or> (case meta of None \<Rightarrow> False | Some lastPage \<Rightarrow> lastPage \<noteq> 0 \<and> lastPage \<le> page)")
      case True
      with step Page show ?thesis by (auto simp: pageItems_def Let_def split: if_splits)
    next
      case False
      with step Page have rec: "paginate' list keep tooOld (page + 1) (acc @ filter keep items) = Some y"
        by (auto simp: Let_def split: if_splits)
      from IH [OF rec] have le: "Suc page \<le> fst y" by simp
      then have "[page..<Suc (fst y)] = page # [Suc page..<Suc (fst y)]"
        by (simp add: upt_conv_Cons)
      with IH [OF rec] Page show ?thesis by (auto simp: pageItems_def)
    qed
  qed
qed

lemma paginate_stops:
  assumes "page \<le> L"
    and "case list L of
           Page items meta \<Rightarrow>
             tooOld items \<or> (\<exists>lastPage. meta = Some lastPage \<and> lastPage \<noteq> 0 \<and> lastPage \<le> L)
         | _ \<Rightarrow> True"
  shows "\<exists>p r. paginate list keep tooOld page acc = Some (p, r) \<and> p \<le> L"
  using assms(1)
proof (induction "L - page" arbitrary: page acc)
  case 0
  then have "page = L" by simp
  with assms(2) show ?case
    by (subst paginate.simps) (auto simp: Let_def split: response.splits option.splits)
next
  case (Suc n)
  then have lt: "page < L" by simp
  show ?case
  proof (cases "list page")
    case (Failure msg)
    with lt show ?thesis by (subst paginate.simps) auto
  next
    case NoData
    with lt show ?thesis by (subst paginate.simps) auto
  next
    case (Page items meta)
    show ?thesis
    proof (cases "tooOld items \<or> (case meta of None \<Rightarrow> False | Some lastPage \<Rightarrow> lastPage \<noteq> 0 \<and> lastPage \<le> page)")
      case True
      with Page lt show ?thesis
        by (subst paginate.simps) (auto simp: Let_def)
    next
      case False
      from Suc.hyps(2) lt have "n = L - (page + 1)" by simp
      from Suc.hyps(1) [OF this, of "acc @ filter keep items"] lt
      obtain p r where "paginate list keep tooOld (page + 1) (acc @ filter keep items) = Some (p, r)" "p \<le> L"
        by auto
      with Page False show ?thesis
        by (subst paginate.simps) (auto simp: Let_def)
    qed
  qed
qed

lemma paginate_never:
  assumes "paginate list keep tooOld page acc = Some y"
  shows "\<not> (\<forall>k. list k = Page [] (Some 0)) \<or> tooOld []"
proof (rule paginate.raw_induct
    [where P = "\<lambda>list keep tooOld page acc y. \<not> (\<forall>k. list k = Page [] (Some 0)) \<or> tooOld []", OF _ assms])
  fix paginate' :: "(nat \<Rightarrow> 'a response) \<Rightarrow> ('a \<Rightarrow> bool) \<Rightarrow> ('a list \<Rightarrow> bool) \<Rightarrow> nat \<Rightarrow> 'a list
     \<Rightarrow> (nat \<times> (string + 'a list)) option"
  fix list keep tooOld page acc y
  assume IH: "\<And>list keep tooOld page acc y. paginate' list keep tooOld page acc = Some y \<Longrightarrow>
       \<not> (\<forall>k. list k = Page [] (Some 0)) \<or> tooOld []"
  assume step: "(case list page of
        Failure msg \<Rightarrow> Some (page, Inl msg)
      | NoData \<Rightarrow> Some (page, Inr acc)
      | Page items meta \<Rightarrow>
          (let acc' = acc @ filter keep items in
           if tooOld items then Some (page, Inr acc')
           else if (case meta of None \<Rightarrow> False | Some lastPage \<Rightarrow> lastPage \<noteq> 0 \<and> lastPage \<le> page)
             then Some (page, Inr acc')
           else paginate' list keep tooOld (page + 1) acc')) = Some y"
  show "\<not> (\<forall>k. list k = Page [] (Some 0)) \<or> tooOld []"
  proof (rule ccontr)
    assume "\<not> (\<not> (\<forall>k. list k = Page [] (Some 0)) \<or> tooOld [])"
    then have all: "\<forall>k. list k = Page [] (Some 0)" and young: "\<not> tooOld []" by auto
    from all have "list page = Page [] (Some 0)" by simp
    with step young have "paginate' list keep tooOld (page + 1) acc = Some y" by simp
    from IH [OF this] all young show False by simp
  qed
qed


section \<open>The ledger in closed form\<close>

text \<open>The zero-filling loop leaves one zero entry for each of the days it visits, whatever
  the zone is.\<close>

lemma update_zero_tabulated:
  "AList.update k z (map (\<lambda>d. (d, z)) ds)
     = map (\<lambda>d. (d, z)) (if k \<in> set ds then ds else ds @ [k])"
  by (induction ds) auto

lemma groupByDate_zero:
  assumes "groupByDate zone currentDate endDate dailyData = Some result"
    and "distinct ds" and "dailyData = map (\<lambda>d. (d, zeroEntry)) ds"
  shows "\<exists>days. distinct days \<and> result = map (\<lambda>d. (d, zeroEntry)) days"
proof -
  have "\<forall>ds. distinct ds \<and> dailyData = map (\<lambda>d. (d, zeroEntry)) ds
          \<longrightarrow> (\<exists>days. distinct days \<and> result = map (\<lambda>d. (d, zeroEntry)) days)"
  proof (rule groupByDate.raw_induct
      [where P = "\<lambda>zone currentDate endDate dailyData result.
         \<forall>ds. distinct ds \<and> dailyData = map (\<lambda>d. (d, zeroEntry)) ds
           \<longrightarrow> (\<exists>days. distinct days \<and> result = map (\<lambda>d. (d, zeroEntry)) days)", OF _ assms(1)])
    fix groupByDate' :: "Zone \<Rightarrow> int \<Rightarrow> int \<Rightarrow> (int \<times> DailyEntry) list
                           \<Rightarrow> (int \<times> DailyEntry) list option"
    fix zone currentDate endDate dailyData result
    assume IH: "\<And>zone currentDate endDate dailyData result.
        groupByDate' zone currentDate endDate dailyData = Some result \<Longrightarrow>
        \<forall>ds. distinct ds \<and> dailyData = map (\<lambda>d. (d, zeroEntry)) ds
          \<longrightarrow> (\<exists>days. distinct days \<and> result = map (\<lambda>d. (d, zeroEntry)) days)"
    assume step: "(if currentDate \<le> endDate
      then groupByDate' zone (setDate zone currentDate (getDate zone currentDate + 1)) endDate
             (AList.update (isoDate currentDate)
                \<lparr>DailyEntry.revenue = 0, DailyEntry.renewalRevenue = 0, DailyEntry.purchases = 0\<rparr>
                dailyData)
      else Some dailyData) = Some result"
    show "\<forall>ds. distinct ds \<and> dailyData = map (\<lambda>d. (d, zeroEntry)) ds
          \<longrightarrow> (\<exists>days. distinct days \<and> result = map (\<lambda>d. (d, zeroEntry)) days)"
    proof (intro allI impI, elim conjE)
      fix ds
      assume ds: "distinct ds" "dailyData = map (\<lambda>d. (d, zeroEntry)) ds"
      show "\<exists>days. distinct days \<and> result = map (\<lambda>d. (d, zeroEntry)) days"
      proof (cases "currentDate \<le> endDate")
        case False
        with step ds show ?thesis by auto
      next
        case True
        let ?ds = "if isoDate currentDate \<in> set ds then ds else ds @ [isoDate currentDate]"
        from True step ds(2)
        have "groupByDate' zone (setDate zone currentDate (getDate zone currentDate + 1)) endDate
                (map (\<lambda>d. (d, zeroEntry)) ?ds) = Some result"
          using update_zero_tabulated [of "isoDate currentDate" zeroEntry ds]
          by (simp add: zeroEntry_def)
        moreover have "distinct ?ds" using ds(1) by simp
        ultimately show ?thesis using IH by blast
      qed
    qed
  qed
  with assms(2,3) show ?thesis by blast
qed

lemma groupByDate_days:
  assumes "groupByDate zone startDate endDate [] = Some result"
  shows "\<exists>days. distinct days \<and> result = map (\<lambda>d. (d, zeroEntry)) days"
  using groupByDate_zero [OF assms, of "[]"] by simp





lemma map_of_tabulated:
  "map_of (map (\<lambda>d. (d, f d)) ds) k = (if k \<in> set ds then Some (f k) else None)"
  by (induction ds) auto

lemma update_tabulated:
  "distinct ds \<Longrightarrow> k \<in> set ds \<Longrightarrow>
     AList.update k v (map (\<lambda>d. (d, f d)) ds) = map (\<lambda>d. (d, if d = k then v else f d)) ds"
proof (induction ds)
  case Nil
  then show ?case by simp
next
  case (Cons a ds)
  show ?case
  proof (cases "a = k")
    case True
    with Cons.prems have "k \<notin> set ds" by simp
    then have "map (\<lambda>d. (d, if d = k then v else f d)) ds = map (\<lambda>d. (d, f d)) ds"
      by (intro map_cong) auto
    with True show ?thesis by simp
  next
    case False
    with Cons show ?thesis by simp
  qed
qed

lemma processOrder_tabulated:
  assumes "distinct ds"
  shows "processOrder order (map (\<lambda>d. (d, f d)) ds) = map (\<lambda>d. (d, addOrder order d (f d))) ds"
proof (cases "Order.status order = ''paid'' \<and> isoDate (Order.created_at order) \<in> set ds")
  case True
  then show ?thesis
    by (simp add: processOrder_def Let_def map_of_tabulated update_tabulated [OF assms] addOrder_def
        cong: map_cong)
next
  case False
  then have "map (\<lambda>d. (d, addOrder order d (f d))) ds = map (\<lambda>d. (d, f d)) ds"
    by (intro map_cong) (auto simp: addOrder_def)
  with False show ?thesis
    by (auto simp: processOrder_def Let_def map_of_tabulated)
qed

lemma processInvoice_tabulated:
  assumes "distinct ds"
  shows "processInvoice invoice (map (\<lambda>d. (d, f d)) ds)
           = map (\<lambda>d. (d, addInvoice invoice d (f d))) ds"
proof (cases "Invoice.status invoice = ''paid'' \<and> \<not> isInitial invoice
                \<and> isoDate (Invoice.created_at invoice) \<in> set ds")
  case True
  then show ?thesis
    by (simp add: processInvoice_def Let_def map_of_tabulated update_tabulated [OF assms]
        addInvoice_def cong: map_cong)
next
  case False
  then have "map (\<lambda>d. (d, addInvoice invoice d (f d))) ds = map (\<lambda>d. (d, f d)) ds"
    by (intro map_cong) (auto simp: addInvoice_def)
  with False show ?thesis
    by (auto simp: processInvoice_def Let_def map_of_tabulated)
qed

lemma fold_processOrder_tabulated:
  "distinct ds \<Longrightarrow>
     fold processOrder orders (map (\<lambda>d. (d, f d)) ds)
       = map (\<lambda>d. (d, fold (\<lambda>order. addOrder order d) orders (f d))) ds"
proof (induction orders arbitrary: f)
  case Nil
  show ?case by simp
next
  case (Cons order orders)
  from Cons.IH [OF Cons.prems, of "\<lambda>d. addOrder order d (f d)"] show ?case
    by (simp add: processOrder_tabulated [OF Cons.prems])
qed

lemma fold_processInvoice_tabulated:
  "distinct ds \<Longrightarrow>
     fold processInvoice invoices (map (\<lambda>d. (d, f d)) ds)
       = map (\<lambda>d. (d, fold (\<lambda>invoice. addInvoice invoice d) invoices (f d))) ds"
proof (induction invoices arbitrary: f)
  case Nil
  show ?case by simp
next
  case (Cons invoice invoices)
  from Cons.IH [OF Cons.prems, of "\<lambda>d. addInvoice invoice d (f d)"] show ?case
    by (simp add: processInvoice_tabulated [OF Cons.prems])
qed

lemma fold_addOrder:
  "fold (\<lambda>order. addOrder order d) orders m
     = m\<lparr>DailyEntry.revenue := DailyEntry.revenue m + orderRevenue orders d,
          DailyEntry.purchases := DailyEntry.purchases m + int (length (paidOrdersOn orders d))\<rparr>"
proof (induction orders arbitrary: m)
  case Nil
  show ?case by (simp add: orderRevenue_def paidOrdersOn_def)
next
  case (Cons order orders)
  show ?case
    by (simp add: Cons.IH) (simp add: addOrder_def orderRevenue_def paidOrdersOn_def)
qed

lemma fold_addInvoice:
  "fold (\<lambda>invoice. addInvoice invoice d) invoices m
     = m\<lparr>DailyEntry.revenue := DailyEntry.revenue m + renewalTotal invoices d,
          DailyEntry.renewalRevenue := DailyEntry.renewalRevenue m + renewalTotal invoices d\<rparr>"
proof (induction invoices arbitrary: m)
  case Nil
  show ?case by (simp add: renewalTotal_def renewalsOn_def)
next
  case (Cons invoice invoices)
  show ?case
    by (simp add: Cons.IH) (simp add: addInvoice_def renewalTotal_def renewalsOn_def)
qed

lemma entries_closed:
  assumes "distinct days"
  shows "fold processInvoice invoices
           (fold processOrder orders (map (\<lambda>d. (d, zeroEntry)) days))
     = map (\<lambda>d. (d, \<lparr>DailyEntry.revenue = orderRevenue orders d + renewalTotal invoices d,
                      DailyEntry.renewalRevenue = renewalTotal invoices d,
                      DailyEntry.purchases = int (length (paidOrdersOn orders d))\<rparr>))
         days"
proof -
  have "fold processInvoice invoices (fold processOrder orders (map (\<lambda>d. (d, zeroEntry)) days))
      = map (\<lambda>d. (d, fold (\<lambda>invoice. addInvoice invoice d) invoices
                        (fold (\<lambda>order. addOrder order d) orders zeroEntry)))
          days"
    by (simp only: fold_processOrder_tabulated [OF assms] fold_processInvoice_tabulated [OF assms])
  also have "\<dots> = map (\<lambda>d. (d, \<lparr>DailyEntry.revenue = orderRevenue orders d + renewalTotal invoices d,
                      DailyEntry.renewalRevenue = renewalTotal invoices d,
                      DailyEntry.purchases = int (length (paidOrdersOn orders d))\<rparr>))
         days"
    by (simp only: fold_addOrder fold_addInvoice) (simp add: zeroEntry_def)
  finally show ?thesis .
qed

text \<open>A ledger that is built consists of the closed-form records of the days the loop
  visited, sorted by date.\<close>

lemma buildLedger_closed:
  assumes "buildLedger zone startDate endDate orders invoices customers activeSubs = Some ledger"
  shows "\<exists>days. distinct days
           \<and> groupByDate zone startDate endDate [] = Some (map (\<lambda>d. (d, zeroEntry)) days)
           \<and> ledger = sort_key LemonSqueezyMetrics.date
                (map (ledgerRecord (currentMRR customers activeSubs) (int (length activeSubs))
                        orders invoices) days)"
proof -
  from assms obtain dailyData
    where loop: "groupByDate zone startDate endDate [] = Some dailyData"
      and ledger: "ledger = sort_key LemonSqueezyMetrics.date
            (map (toMetrics (currentMRR customers activeSubs) (int (length activeSubs)))
               (fold processInvoice invoices (fold processOrder orders dailyData)))"
    by (auto simp: buildLedger_def Let_def split: option.splits)
  from groupByDate_days [OF loop] obtain days
    where days: "distinct days" "dailyData = map (\<lambda>d. (d, zeroEntry)) days"
    by blast
  have "map (toMetrics (currentMRR customers activeSubs) (int (length activeSubs)))
          (fold processInvoice invoices (fold processOrder orders dailyData))
      = map (ledgerRecord (currentMRR customers activeSubs) (int (length activeSubs))
               orders invoices) days"
    unfolding days(2) by (simp only: entries_closed [OF days(1)]) (simp add: toMetrics_def ledgerRecord_def)
  with loop days ledger show ?thesis by auto
qed

section \<open>Properties of the billing ledger builder\<close>

lemma paginate_from_first:
  assumes "paginate list keep tooOld 1 [] = Some (p, Inr res)"
  shows "res = filter keep (seen list p)"
  using paginate_result [OF assms] by (simp add: seen_def)

lemma tryBlock_ledger:
  assumes "tryBlock zone api storeId startDate endDate = Some (reqs, Inr ledger)"
  shows "\<exists>pO orders pI invoices pC customers pS activeSubs.
           fetchAllOrders (listOrders api storeId) startDate endDate = Some (pO, Inr orders)
         \<and> fetchAllInvoices (listSubscriptionInvoices api storeId) startDate endDate
             = Some (pI, Inr invoices)
         \<and> fetchAllCustomers (listCustomers api storeId) = Some (pC, Inr customers)
         \<and> fetchActiveSubs (listSubscriptions api storeId) = Some (pS, Inr activeSubs)
         \<and> buildLedger zone startDate endDate orders invoices customers activeSubs = Some ledger"
  using assms
  by (auto simp: tryBlock_def Let_def split: option.splits sum.splits prod.splits)

lemma run_ledger:
  assumes "fetchLemonSqueezyData env api startDate endDate = Some run" and "series run \<noteq> []"
  shows "\<exists>reqs. tryBlock (TZ env) api (LEMONSQUEEZY_STORE_ID env) startDate endDate
                  = Some (reqs, Inr (series run))"
  using assms
  by (auto simp: fetchLemonSqueezyData_def split: if_splits option.splits sum.splits prod.splits)



lemma run_closed:
  assumes "fetchLemonSqueezyData env api startDate endDate = Some run" and "series run \<noteq> []"
  shows "\<exists>pO pI pC customers pS activeSubs days.
           fetchAllOrders (listOrders api (LEMONSQUEEZY_STORE_ID env)) startDate endDate
             = Some (pO, Inr (filter (\<lambda>order. startDate \<le> Order.created_at order
                                        \<and> Order.created_at order \<le> endDate)
                                (seen (listOrders api (LEMONSQUEEZY_STORE_ID env)) pO)))
         \<and> fetchAllInvoices (listSubscriptionInvoices api (LEMONSQUEEZY_STORE_ID env))
               startDate endDate
             = Some (pI, Inr (filter (\<lambda>inv. startDate \<le> Invoice.created_at inv
                                        \<and> Invoice.created_at inv \<le> endDate)
                                (seen (listSubscriptionInvoices api (LEMONSQUEEZY_STORE_ID env)) pI)))
         \<and> fetchAllCustomers (listCustomers api (LEMONSQUEEZY_STORE_ID env))
             = Some (pC, Inr customers)
         \<and> fetchActiveSubs (listSubscriptions api (LEMONSQUEEZY_STORE_ID env))
             = Some (pS, Inr activeSubs)
         \<and> distinct days
         \<and> set (series run) =
             ledgerRecord (currentMRR customers activeSubs) (int (length activeSubs))
                    (filter (\<lambda>order. startDate \<le> Order.created_at order
                                \<and> Order.created_at order \<le> endDate)
                       (seen (listOrders api (LEMONSQUEEZY_STORE_ID env)) pO))
                    (filter (\<lambda>inv. startDate \<le> Invoice.created_at inv
                                \<and> Invoice.created_at inv \<le> endDate)
                       (seen (listSubscriptionInvoices api (LEMONSQUEEZY_STORE_ID env)) pI))
               ` set days"
proof -
  let ?sid = "LEMONSQUEEZY_STORE_ID env"
  from run_ledger [OF assms] obtain reqs
    where "tryBlock (TZ env) api ?sid startDate endDate = Some (reqs, Inr (series run))" ..
  from tryBlock_ledger [OF this] obtain pO orders pI invoices pC customers pS activeSubs
    where o: "fetchAllOrders (listOrders api ?sid) startDate endDate = Some (pO, Inr orders)"
      and i: "fetchAllInvoices (listSubscriptionInvoices api ?sid) startDate endDate
                = Some (pI, Inr invoices)"
      and c: "fetchAllCustomers (listCustomers api ?sid) = Some (pC, Inr customers)"
      and s: "fetchActiveSubs (listSubscriptions api ?sid) = Some (pS, Inr activeSubs)"
      and l: "buildLedger (TZ env) startDate endDate orders invoices customers activeSubs
                = Some (series run)"
    by blast
  from o have o': "orders = filter (\<lambda>order. startDate \<le> Order.created_at order
                                        \<and> Order.created_at order \<le> endDate)
                                (seen (listOrders api ?sid) pO)"
    unfolding fetchAllOrders_def by (rule paginate_from_first)
  from i have i': "invoices = filter (\<lambda>inv. startDate \<le> Invoice.created_at inv
                                        \<and> Invoice.created_at inv \<le> endDate)
                                (seen (listSubscriptionInvoices api ?sid) pI)"
    unfolding fetchAllInvoices_def by (rule paginate_from_first)
  from buildLedger_closed [OF l] obtain days
    where days: "distinct days"
      and rows: "series run = sort_key LemonSqueezyMetrics.date
                   (map (ledgerRecord (currentMRR customers activeSubs) (int (length activeSubs))
                           orders invoices) days)"
    by blast
  from rows
  have "set (series run)
          = ledgerRecord (currentMRR customers activeSubs) (int (length activeSubs))
              orders invoices ` set days"
    by simp
  with o i c s days show ?thesis
    unfolding o' i' by blast
qed


lemma exRun_eval:
  "fetchLemonSqueezyData exEnv exApi exStart exEnd = Some exRun"
  by code_simp

lemma seen_nonneg:
  assumes "nonnegTotals list" and "order \<in> set (seen list p)"
  shows "0 \<le> Order.total order"
  using assms by (auto simp: nonnegTotals_def seen_def)

lemma orderRevenue_nonneg:
  assumes "\<forall>order \<in> set orders. 0 \<le> Order.total order"
  shows "0 \<le> orderRevenue orders d"
  unfolding orderRevenue_def
  by (rule sum_list_nonneg) (use assms in \<open>auto simp: paidOrdersOn_def\<close>)


lemma emptyPages_reports: "0 < L \<Longrightarrow> reportsLastPage (emptyPages L) L"
  by (simp add: reportsLastPage_def emptyPages_def)

lemma emptyPages_three:
  "fetchAllOrders (emptyPages 3) 0 10 = Some (3, Inr [])"
  "fetchAllInvoices (emptyPages 3) 0 10 = Some (3, Inr [])"
  "fetchAllCustomers (emptyPages 3) = Some (3, Inr [])"
  "fetchActiveSubs (emptyPages 3) = Some (3, Inr [])"
  by code_simp+

lemma paginate_zero_lastPage:
  assumes "\<not> tooOld []"
  shows "paginate (emptyPages 0) keep tooOld 1 [] = None"
proof (cases "paginate (emptyPages 0) keep tooOld 1 []")
  case None
  then show ?thesis .
next
  case (Some y)
  from paginate_never [OF Some] assms show ?thesis by (simp add: emptyPages_def)
qed


text \<open>
  C7, as the code has it.  When every page of an endpoint reports a last page between 1
  and \<open>L\<close>, each of the four loops ends, with an error or a list, after at most \<open>L\<close>
  requests; neither the records on the pages nor the date short-circuit matter.  (A
  reported last page of 0, like an absent \<open>meta\<close>, does not stop a loop.)
\<close>

theorem pagination_terminates:
  assumes "reportsLastPage ordersPage LO"
    and "reportsLastPage invoicesPage LI"
    and "reportsLastPage customersPage LC"
    and "reportsLastPage subscriptionsPage LS"
  shows "(\<exists>p r. fetchAllOrders ordersPage startDate endDate = Some (p, r) \<and> p \<le> LO)
       \<and> (\<exists>p r. fetchAllInvoices invoicesPage startDate endDate = Some (p, r) \<and> p \<le> LI)
       \<and> (\<exists>p r. fetchAllCustomers customersPage = Some (p, r) \<and> p \<le> LC)
       \<and> (\<exists>p r. fetchActiveSubs subscriptionsPage = Some (p, r) \<and> p \<le> LS)"
proof -
  have stop: "1 \<le> L \<and> (case list L of
           Page items meta \<Rightarrow>
             tooOld items \<or> (\<exists>lastPage. meta = Some lastPage \<and> lastPage \<noteq> 0 \<and> lastPage \<le> L)
         | _ \<Rightarrow> True)"
    if "reportsLastPage list L" for list :: "nat \<Rightarrow> 'a response" and L tooOld
  proof -
    from that obtain items lastPage
      where "list L = Page items (Some lastPage)" "0 < lastPage" "lastPage \<le> L"
      unfolding reportsLastPage_def by blast
    then show ?thesis by auto
  qed
  show ?thesis
    unfolding fetchAllOrders_def fetchAllInvoices_def fetchAllCustomers_def fetchActiveSubs_def
    using stop [OF assms(1)] stop [OF assms(2)] stop [OF assms(3)] stop [OF assms(4)]
    by (intro conjI paginate_stops) simp_all
qed

theorem pagination_terminates_witness:
  "reportsLastPage (emptyPages 3 :: nat \<Rightarrow> Order response) 3
   \<and> reportsLastPage (emptyPages 3 :: nat \<Rightarrow> Invoice response) 3
   \<and> reportsLastPage (emptyPages 3 :: nat \<Rightarrow> Customer response) 3
   \<and> reportsLastPage (emptyPages 3 :: nat \<Rightarrow> Subscription response) 3
   \<and> fetchAllOrders (emptyPages 3) 0 10 = Some (3, Inr [])
   \<and> fetchAllInvoices (emptyPages 3) 0 10 = Some (3, Inr [])
   \<and> fetchAllCustomers (emptyPages 3) = Some (3, Inr [])
   \<and> fetchActiveSubs (emptyPages 3) = Some (3, Inr [])"
proof -
  have three: "(0::nat) < 3" by simp
  note r = emptyPages_reports [OF three]
  from pagination_terminates [OF r r r r, of 0 10] show ?thesis
    by (simp add: r emptyPages_three)
qed

text \<open>The claim as stated fails when the reported last page is 0: on empty pages the
  loops for customers and for orders never end.\<close>

theorem pagination_zero_lastPage_counterexample:
  "fetchAllCustomers (emptyPages 0) = None \<and> fetchAllOrders (emptyPages 0) 0 10 = None"
  unfolding fetchAllCustomers_def fetchAllOrders_def
  by (intro conjI paginate_zero_lastPage) simp_all





lemma exApi_nonneg: "nonnegTotals (listOrders exApi (LEMONSQUEEZY_STORE_ID exEnv))"
  by (auto simp: nonnegTotals_def exApi_def exOrders_def pageItems_def)





text \<open>
  C2.  In every series the builder returns, every record has
  \<open>renewalRevenue \<le> revenue\<close>, provided the totals of the orders on the provider's pages
  are non-negative.  (Invoice totals need no assumption: an invoice adds the same amount
  to both fields.)
\<close>

theorem renewal_within_revenue:
  assumes "fetchLemonSqueezyData env api startDate endDate = Some run"
    and "r \<in> set (series run)"
    and "nonnegTotals (listOrders api (LEMONSQUEEZY_STORE_ID env))"
  shows "LemonSqueezyMetrics.renewalRevenue r \<le> LemonSqueezyMetrics.revenue r"
proof -
  from assms(2) have "series run \<noteq> []" by auto
  from run_closed [OF assms(1) this] obtain pO pI and pC :: nat and customers and pS :: nat
    and activeSubs and days :: "int list" where
    rows: "set (series run) =
             ledgerRecord (currentMRR customers activeSubs) (int (length activeSubs))
                    (filter (\<lambda>order. startDate \<le> Order.created_at order
                                \<and> Order.created_at order \<le> endDate)
                       (seen (listOrders api (LEMONSQUEEZY_STORE_ID env)) pO))
                    (filter (\<lambda>inv. startDate \<le> Invoice.created_at inv
                                \<and> Invoice.created_at inv \<le> endDate)
                       (seen (listSubscriptionInvoices api (LEMONSQUEEZY_STORE_ID env)) pI))
               ` set days"
    by blast
  let ?orders = "filter (\<lambda>order. startDate \<le> Order.created_at order
                                \<and> Order.created_at order \<le> endDate)
                       (seen (listOrders api (LEMONSQUEEZY_STORE_ID env)) pO)"
  have "\<forall>order \<in> set ?orders. 0 \<le> Order.total order"
    using seen_nonneg [OF assms(3)] by auto
  then have "0 \<le> orderRevenue ?orders d" for d
    by (rule orderRevenue_nonneg)
  moreover from assms(2) rows obtain d where
    "r = ledgerRecord (currentMRR customers activeSubs) (int (length activeSubs)) ?orders
           (filter (\<lambda>inv. startDate \<le> Invoice.created_at inv
                                \<and> Invoice.created_at inv \<le> endDate)
                       (seen (listSubscriptionInvoices api (LEMONSQUEEZY_STORE_ID env)) pI)) d"
    by auto
  ultimately show ?thesis by (simp add: ledgerRecord_def)
qed


theorem renewal_within_revenue_witness:
  "fetchLemonSqueezyData exEnv exApi exStart exEnd = Some exRun
   \<and> series exRun ! 0 \<in> set (series exRun)
   \<and> nonnegTotals (listOrders exApi (LEMONSQUEEZY_STORE_ID exEnv))
   \<and> LemonSqueezyMetrics.renewalRevenue (series exRun ! 0) = 19
   \<and> LemonSqueezyMetrics.revenue (series exRun ! 0) = 19
   \<and> LemonSqueezyMetrics.renewalRevenue (series exRun ! 0)
       \<le> LemonSqueezyMetrics.revenue (series exRun ! 0)"
proof -
  have member: "series exRun ! 0 \<in> set (series exRun)"
    by (simp add: exRun_def)
  have concrete: "LemonSqueezyMetrics.renewalRevenue (series exRun ! 0) = 19"
    "LemonSqueezyMetrics.revenue (series exRun ! 0) = 19"
    by (simp_all add: exRun_def)
  show ?thesis
    by (intro conjI renewal_within_revenue [OF exRun_eval member exApi_nonneg] exRun_eval member
        exApi_nonneg concrete)
qed




lemma tickRun_eval: "fetchLemonSqueezyData exEnv todayApi tickStart tickEnd = Some tickRun"
  by code_simp

lemma nyRun_eval: "fetchLemonSqueezyData nyEnv quietApi nyStart nyEnd = Some nyRun"
  by code_simp

lemma today_kept:
  "fetchAllOrders (listOrders todayApi (LEMONSQUEEZY_STORE_ID exEnv)) tickStart tickEnd
     = Some (1, Inr [todayOrder])"
  by code_simp

lemma tick_facts:
  "tickStart \<le> tickEnd" "isoDate tickStart = 0" "isoDate tickEnd = 7"
  "Order.status todayOrder = ''paid''"
  "tickStart \<le> Order.created_at todayOrder" "Order.created_at todayOrder \<le> tickEnd"
  "isoDate (Order.created_at todayOrder) = 7"
  "map LemonSqueezyMetrics.date (series tickRun) = [0, 1, 2, 3, 4, 5, 6]"
  "map LemonSqueezyMetrics.purchases (series tickRun) = [0, 0, 0, 0, 0, 0, 0]"
  by (simp_all add: tickStart_def tickEnd_def todayOrder_def tickRun_def isoDate_def dayMs_def)

lemma ny_facts:
  "nyStart \<le> nyEnd" "isoDate nyStart = 20029" "isoDate nyEnd = 20032"
  "map LemonSqueezyMetrics.date (series nyRun) = [20029, 20031, 20032]"
  by (simp_all add: nyStart_def nyEnd_def nyRun_def isoDate_def dayMs_def)

text \<open>
  C9 does not hold of the code.  The zero-filling loop starts at \<open>startDate\<close> and moves to
  the same local time on the next local day while the instant is not after \<open>endDate\<close>;
  the key is the UTC day of the instant.  For the range \<open>7d\<close> that \<open>getDashboardData\<close>
  makes when the clock ticks between its two \<open>new Date()\<close>, from 12:00:00.001 of day 0 to
  12:00:00.000 of day 7, the series has records for the days 0 to 6 and none for day 7,
  and the paid order of day 7, which lies in the range and is kept by the fetch, is
  counted in no record.  On a server in New York the range from 2024-11-02 23:30 UTC to
  2024-11-05 12:00 UTC gives records for 2024-11-02, 2024-11-04 and 2024-11-05: the day
  the clocks go back is skipped.
\<close>

theorem ledger_days_dropped:
  "tickStart \<le> tickEnd \<and> isoDate tickStart = 0 \<and> isoDate tickEnd = 7
   \<and> fetchAllOrders (listOrders todayApi (LEMONSQUEEZY_STORE_ID exEnv)) tickStart tickEnd
       = Some (1, Inr [todayOrder])
   \<and> Order.status todayOrder = ''paid''
   \<and> tickStart \<le> Order.created_at todayOrder \<and> Order.created_at todayOrder \<le> tickEnd
   \<and> isoDate (Order.created_at todayOrder) = 7
   \<and> fetchLemonSqueezyData exEnv todayApi tickStart tickEnd = Some tickRun
   \<and> map LemonSqueezyMetrics.date (series tickRun) = [0, 1, 2, 3, 4, 5, 6]
   \<and> map LemonSqueezyMetrics.purchases (series tickRun) = [0, 0, 0, 0, 0, 0, 0]
   \<and> nyStart \<le> nyEnd \<and> isoDate nyStart = 20029 \<and> isoDate nyEnd = 20032
   \<and> fetchLemonSqueezyData nyEnv quietApi nyStart nyEnd = Some nyRun
   \<and> map LemonSqueezyMetrics.date (series nyRun) = [20029, 20031, 20032]"
  by (intro conjI tick_facts today_kept tickRun_eval ny_facts nyRun_eval)















end
